theory Spec2Isabelle
  imports Complex_Main
begin

section \<open>Numbers\<close>

text \<open>
  The fields of \<open>SealInputs\<close> and \<open>SealResults\<close> have the TypeScript type \<open>number\<close>:
  an IEEE 754 binary64 value. A \<open>number\<close> is modelled as \<open>NaN\<close>, \<open>+Infinity\<close>,
  \<open>-Infinity\<close>, the negative zero, or \<open>Fin r\<close> for the finite value \<open>r\<close> (\<open>Fin 0\<close> is the
  positive zero). The arithmetic operators follow the case tables of the language
  definition on the special values, and on finite operands they return the exact
  real result rounded to binary64: to the nearest value with a 53-bit significand,
  ties to the even significand, with gradual underflow below \<open>2^-1022\<close>, a zero when
  the result rounds to zero, and an infinity when the rounded magnitude reaches
  \<open>2^1024\<close>.
\<close>

datatype jsnum = NaN | PInf | NInf | NZero | Fin real

fun is_nan :: "jsnum \<Rightarrow> bool" where
  "is_nan NaN = True"
| "is_nan _ = False"

fun is_inf :: "jsnum \<Rightarrow> bool" where
  "is_inf PInf = True"
| "is_inf NInf = True"
| "is_inf _ = False"

text \<open>\<open>Number.isFinite\<close>: neither \<open>NaN\<close> nor an infinity.\<close>

fun is_finite :: "jsnum \<Rightarrow> bool" where
  "is_finite NZero = True"
| "is_finite (Fin r) = True"
| "is_finite _ = False"

text \<open>The real value of a finite number; both zeros have the value 0.\<close>

fun to_real :: "jsnum \<Rightarrow> real" where
  "to_real (Fin r) = r"
| "to_real _ = 0"

fun is_zero :: "jsnum \<Rightarrow> bool" where
  "is_zero NZero = True"
| "is_zero (Fin r) = (r = 0)"
| "is_zero _ = False"

text \<open>The sign bit (not used on \<open>NaN\<close>).\<close>

fun negative :: "jsnum \<Rightarrow> bool" where
  "negative NInf = True"
| "negative NZero = True"
| "negative (Fin r) = (r < 0)"
| "negative _ = False"

definition signed_zero :: "bool \<Rightarrow> jsnum" where
  "signed_zero neg = (if neg then NZero else Fin 0)"

definition signed_inf :: "bool \<Rightarrow> jsnum" where
  "signed_inf neg = (if neg then NInf else PInf)"

text \<open>
  Rounding. \<open>expo x\<close> is the binary exponent of \<open>x\<close>: \<open>2^(expo x) \<le> |x| < 2^(expo x + 1)\<close>.
  \<open>quantum x\<close> is the spacing of the binary64 values around \<open>x\<close>: 52 places below the
  exponent, and \<open>2^-1074\<close> throughout the subnormal range. \<open>nearest x\<close> is the multiple
  of the quantum nearest to \<open>|x|\<close>, ties to even. \<open>round64\<close> adds the sign, overflow
  and the zeros.
\<close>

definition expo :: "real \<Rightarrow> int" where
  "expo x = \<lfloor>log 2 \<bar>x\<bar>\<rfloor>"

definition round_half_even :: "real \<Rightarrow> int" where
  "round_half_even r =
     (if r - of_int \<lfloor>r\<rfloor> < 1 / 2 then \<lfloor>r\<rfloor>
      else if 1 / 2 < r - of_int \<lfloor>r\<rfloor> then \<lfloor>r\<rfloor> + 1
      else if even \<lfloor>r\<rfloor> then \<lfloor>r\<rfloor> else \<lfloor>r\<rfloor> + 1)"

definition quantum :: "real \<Rightarrow> real" where
  "quantum x = 2 powi (max (expo x) (- 1022) - 52)"

definition nearest :: "real \<Rightarrow> real" where
  "nearest x = of_int (round_half_even (\<bar>x\<bar> / quantum x)) * quantum x"

definition round64 :: "real \<Rightarrow> jsnum" where
  "round64 x =
     (if x = 0 then Fin 0
      else if 2 ^ 1024 \<le> nearest x then signed_inf (x < 0)
      else if nearest x = 0 then signed_zero (x < 0)
      else Fin (if x < 0 then - nearest x else nearest x))"

text \<open>A numeric literal denotes the binary64 value nearest to its decimal value.\<close>

definition num :: "real \<Rightarrow> jsnum" where
  "num x = round64 x"

text \<open>The values of the type: a finite value is one that rounding leaves unchanged.\<close>

definition is_number :: "jsnum \<Rightarrow> bool" where
  "is_number x = (case x of Fin r \<Rightarrow> round64 r = Fin r | _ \<Rightarrow> True)"

text \<open>The operator \<open>*\<close>.\<close>

definition jmul :: "jsnum \<Rightarrow> jsnum \<Rightarrow> jsnum" where
  "jmul a b =
     (if is_nan a \<or> is_nan b then NaN
      else if (is_inf a \<and> is_zero b) \<or> (is_zero a \<and> is_inf b) then NaN
      else if is_inf a \<or> is_inf b then signed_inf (negative a \<noteq> negative b)
      else if is_zero a \<or> is_zero b then signed_zero (negative a \<noteq> negative b)
      else round64 (to_real a * to_real b))"

text \<open>The operator \<open>/\<close>: it never throws; a zero divisor gives an infinity or \<open>NaN\<close>.\<close>

definition jdiv :: "jsnum \<Rightarrow> jsnum \<Rightarrow> jsnum" where
  "jdiv a b =
     (if is_nan a \<or> is_nan b then NaN
      else if (is_inf a \<and> is_inf b) \<or> (is_zero a \<and> is_zero b) then NaN
      else if is_inf a \<or> is_zero b then signed_inf (negative a \<noteq> negative b)
      else if is_inf b \<or> is_zero a then signed_zero (negative a \<noteq> negative b)
      else round64 (to_real a / to_real b))"

text \<open>The operator \<open>+\<close> on numbers.\<close>

definition jadd :: "jsnum \<Rightarrow> jsnum \<Rightarrow> jsnum" where
  "jadd a b =
     (if is_nan a \<or> is_nan b then NaN
      else if is_inf a \<and> is_inf b then (if a = b then a else NaN)
      else if is_inf a then a
      else if is_inf b then b
      else if a = NZero \<and> b = NZero then NZero
      else round64 (to_real a + to_real b))"

text \<open>The comparison \<open><\<close>: false as soon as one side is \<open>NaN\<close>; the zeros are equal.\<close>

fun jless :: "jsnum \<Rightarrow> jsnum \<Rightarrow> bool" where
  "jless NaN _ = False"
| "jless _ NaN = False"
| "jless PInf _ = False"
| "jless _ PInf = True"
| "jless _ NInf = False"
| "jless NInf _ = True"
| "jless a b = (to_real a < to_real b)"

text \<open>The comparison \<open><=\<close>.\<close>

fun jle :: "jsnum \<Rightarrow> jsnum \<Rightarrow> bool" where
  "jle NaN _ = False"
| "jle _ NaN = False"
| "jle _ PInf = True"
| "jle PInf _ = False"
| "jle NInf _ = True"
| "jle _ NInf = False"
| "jle a b = (to_real a \<le> to_real b)"

definition is_odd_integer :: "real \<Rightarrow> bool" where
  "is_odd_integer y = (y = of_int \<lfloor>y\<rfloor> \<and> odd \<lfloor>y\<rfloor>)"

definition is_integer :: "real \<Rightarrow> bool" where
  "is_integer y = (y = of_int \<lfloor>y\<rfloor>)"

text \<open>
  \<open>Math.pow\<close>, in the order of the steps of the language definition: the exponent
  \<open>NaN\<close> or zero first, then the special bases, then the infinite exponents, and last
  the finite case, where a negative base with a fractional exponent gives \<open>NaN\<close>.
  In the finite case the language asks for an approximation of the real power and
  leaves its last bit to the implementation; the model takes the real power rounded
  as the other operators round.
\<close>

definition jpow :: "jsnum \<Rightarrow> jsnum \<Rightarrow> jsnum" where
  "jpow base exponent =
     (if is_nan exponent then NaN
      else if is_zero exponent then Fin 1
      else if is_nan base then NaN
      else if base = PInf then (if jless (Fin 0) exponent then PInf else Fin 0)
      else if base = NInf then
        (if jless (Fin 0) exponent
         then (if is_finite exponent \<and> is_odd_integer (to_real exponent) then NInf else PInf)
         else (if is_finite exponent \<and> is_odd_integer (to_real exponent) then NZero else Fin 0))
      else if base = Fin 0 then (if jless (Fin 0) exponent then Fin 0 else PInf)
      else if base = NZero then
        (if jless (Fin 0) exponent
         then (if is_finite exponent \<and> is_odd_integer (to_real exponent) then NZero else Fin 0)
         else (if is_finite exponent \<and> is_odd_integer (to_real exponent) then NInf else PInf))
      else if exponent = PInf then
        (if \<bar>to_real base\<bar> > 1 then PInf else if \<bar>to_real base\<bar> = 1 then NaN else Fin 0)
      else if exponent = NInf then
        (if \<bar>to_real base\<bar> > 1 then Fin 0 else if \<bar>to_real base\<bar> = 1 then NaN else PInf)
      else if to_real base < 0 \<and> \<not> is_integer (to_real exponent) then NaN
      else if 0 < to_real base then round64 (to_real base powr to_real exponent)
      else round64 (to_real base powi \<lfloor>to_real exponent\<rfloor>))"

text \<open>\<open>Math.PI\<close> is the binary64 value nearest to \<open>pi\<close>, \<open>3.141592653589793\<close>.\<close>

definition Math_PI :: jsnum where
  "Math_PI = Fin (884279719003555 / 281474976710656)"

section \<open>The data model\<close>

record SealInputs =
  d_outer :: jsnum
  n_rpm :: jsnum
  rho :: jsnum
  mu :: jsnum
  lambda_gas :: jsnum
  Pr :: jsnum
  u_axial :: jsnum
  delta_gap :: jsnum
  d_hyd :: jsnum
  B :: jsnum

record SealResults =
  Re_rot :: jsnum
  Re_ax :: jsnum
  Nu_s :: jsnum
  H_s :: jsnum
  Nu_r :: jsnum
  H_r :: jsnum

section \<open>The calculation\<close>

text \<open>
  \<open>calculateHeatTransfer\<close>, statement by statement; the operators associate as the
  source expressions do (\<open>2 * Math.PI * n_rpm / 60.0\<close> is \<open>((2 * Math.PI) * n_rpm) / 60.0\<close>).
  The local constants \<open>Re_rot\<close>, ..., \<open>H_r\<close> of the source carry the prefix \<open>v_\<close>
  here, since the record selectors have their names.
\<close>

definition calculateHeatTransfer :: "SealInputs \<Rightarrow> SealResults" where
  "calculateHeatTransfer inputs =
     (let omega = jdiv (jmul (jmul (num 2) Math_PI) (n_rpm inputs)) (num 60.0);
          v_Re_rot = jdiv (jmul (jmul (jmul (rho inputs) omega) (d_outer inputs)) (d_hyd inputs))
                          (jmul (num 2) (mu inputs));
          v_Re_ax = jdiv (jmul (jmul (jmul (num 2) (rho inputs)) (u_axial inputs)) (delta_gap inputs))
                         (mu inputs);
          v_Nu_s = jmul (jmul (jmul (num 0.023) (B inputs)) (jpow v_Re_ax (num 0.8)))
                        (jpow (Pr inputs) (num 0.4));
          v_H_s = jdiv (jmul v_Nu_s (lambda_gas inputs)) (jmul (num 2) (delta_gap inputs));
          term_in_Nu_r = jmul (jadd (jmul (num 0.5) (jpow v_Re_rot (num 2))) (jpow v_Re_ax (num 2)))
                              (Pr inputs);
          v_Nu_r = jmul (num 0.135) (jpow term_in_Nu_r (jdiv (num 1.0) (num 3.0)));
          v_H_r = jdiv (jmul v_Nu_r (lambda_gas inputs)) (d_hyd inputs)
      in \<lparr>Re_rot = v_Re_rot, Re_ax = v_Re_ax, Nu_s = v_Nu_s, H_s = v_H_s,
          Nu_r = v_Nu_r, H_r = v_H_r\<rparr>)"

text \<open>
  The call as a whole. The body is straight-line arithmetic on numbers: it has no
  \<open>throw\<close>, no conditional and no early return, and no operator on numbers throws, so
  the only completion is the normal one. (The destructuring would throw on \<open>null\<close> or
  \<open>undefined\<close>, which the type \<open>SealInputs\<close> of the parameter excludes.)
  \<open>InvalidInputError\<close> is the error the specification names; the source does not
  define it and has no other error.
\<close>

datatype error = InvalidInputError

definition compute :: "SealInputs \<Rightarrow> error + SealResults" where
  "compute inputs = Inr (calculateHeatTransfer inputs)"

text \<open>\<open>INITIAL_INPUTS\<close> of \<open>App.tsx\<close>, the reference case of the specification.\<close>

definition INITIAL_INPUTS :: SealInputs where
  "INITIAL_INPUTS =
     \<lparr>d_outer = num 0.150, n_rpm = num 10300, rho = num 1.225, mu = num (1.81 / 10 ^ 5),
      lambda_gas = num 0.026, Pr = num 0.71, u_axial = num 5.0, delta_gap = num (5.0 / 10 ^ 6),
      d_hyd = num (1.0 / 10 ^ 5), B = num 2.0\<rparr>"

section \<open>The domain constraints and formulas of the specification\<close>

definition positive :: "jsnum \<Rightarrow> bool" where
  "positive x = (is_finite x \<and> 0 < to_real x)"

definition nonnegative :: "jsnum \<Rightarrow> bool" where
  "nonnegative x = (is_finite x \<and> 0 \<le> to_real x)"

text \<open>The constraints of section 3 of the specification on the ten inputs.\<close>

definition valid :: "SealInputs \<Rightarrow> bool" where
  "valid i =
     (positive (d_outer i) \<and> nonnegative (n_rpm i) \<and> positive (rho i) \<and> positive (mu i) \<and>
      positive (lambda_gas i) \<and> positive (Pr i) \<and> nonnegative (u_axial i) \<and>
      positive (delta_gap i) \<and> positive (d_hyd i) \<and> positive (B i))"

text \<open>
  The seven steps of section 4.1 of the specification, over the real numbers, with
  real-valued exponentiation. They are written from the specification, not from the
  source, and are compared with \<open>calculateHeatTransfer\<close> below.
\<close>

definition spec_omega :: "SealInputs \<Rightarrow> real" where
  "spec_omega i = 2 * pi * to_real (n_rpm i) / 60"

definition spec_Re_rot :: "SealInputs \<Rightarrow> real" where
  "spec_Re_rot i =
     (to_real (rho i) * spec_omega i * to_real (d_outer i) * to_real (d_hyd i)) / (2 * to_real (mu i))"

definition spec_Re_ax :: "SealInputs \<Rightarrow> real" where
  "spec_Re_ax i =
     (2 * to_real (rho i) * to_real (u_axial i) * to_real (delta_gap i)) / to_real (mu i)"

definition spec_Nu_s :: "SealInputs \<Rightarrow> real" where
  "spec_Nu_s i = 0.023 * to_real (B i) * spec_Re_ax i powr 0.8 * to_real (Pr i) powr 0.4"

definition spec_H_s :: "SealInputs \<Rightarrow> real" where
  "spec_H_s i = (spec_Nu_s i * to_real (lambda_gas i)) / (2 * to_real (delta_gap i))"

definition spec_Nu_r :: "SealInputs \<Rightarrow> real" where
  "spec_Nu_r i =
     0.135 * ((0.5 * (spec_Re_rot i)\<^sup>2 + (spec_Re_ax i)\<^sup>2) * to_real (Pr i)) powr (1 / 3)"

definition spec_H_r :: "SealInputs \<Rightarrow> real" where
  "spec_H_r i = (spec_Nu_r i * to_real (lambda_gas i)) / to_real (d_hyd i)"

text \<open>
  Ranges: \<open>inside a b x\<close> says that \<open>x\<close> is finite with \<open>2^a \<le> x \<le> 2^b\<close>, and \<open>below b x\<close>
  that \<open>x\<close> is finite with \<open>0 \<le> x \<le> 2^b\<close> (either zero included).
\<close>

definition inside :: "int \<Rightarrow> int \<Rightarrow> jsnum \<Rightarrow> bool" where
  "inside a b x = (is_finite x \<and> 2 powi a \<le> to_real x \<and> to_real x \<le> 2 powi b)"

definition below :: "int \<Rightarrow> jsnum \<Rightarrow> bool" where
  "below b x = (is_finite x \<and> 0 \<le> to_real x \<and> to_real x \<le> 2 powi b)"

text \<open>The ten inputs are values of the type \<open>number\<close>.\<close>

definition numbers :: "SealInputs \<Rightarrow> bool" where
  "numbers i =
     (is_number (d_outer i) \<and> is_number (n_rpm i) \<and> is_number (rho i) \<and> is_number (mu i) \<and>
      is_number (lambda_gas i) \<and> is_number (Pr i) \<and> is_number (u_axial i) \<and>
      is_number (delta_gap i) \<and> is_number (d_hyd i) \<and> is_number (B i))"

text \<open>
  Inputs of moderate size: none above \<open>2^64\<close>, and the three divisors \<open>mu\<close>, \<open>delta_gap\<close>
  and \<open>d_hyd\<close> not below \<open>2^-64\<close>.
\<close>

definition moderate :: "SealInputs \<Rightarrow> bool" where
  "moderate i =
     (below 64 (d_outer i) \<and> below 64 (n_rpm i) \<and> below 64 (rho i) \<and> inside (- 64) 64 (mu i) \<and>
      below 64 (lambda_gas i) \<and> below 64 (Pr i) \<and> below 64 (u_axial i) \<and>
      inside (- 64) 64 (delta_gap i) \<and> inside (- 64) 64 (d_hyd i) \<and> below 64 (B i))"

text \<open>The Maclaurin polynomial of the sine of degree 13, for bounds on \<open>pi\<close>.\<close>

definition sin_poly :: "real \<Rightarrow> real" where
  "sin_poly x =
     x - x^3 / 6 + x^5 / 120 - x^7 / 5040 + x^9 / 362880 - x^11 / 39916800 + x^13 / 6227020800"

section \<open>Objects and references\<close>

text \<open>
  The argument of \<open>calculateHeatTransfer\<close> is a reference to an object, and the object
  literal it returns is a new object. For the claims about mutation and sharing the
  store is a list of objects, an address is an index into it, and allocation appends.
  The call reads the ten properties of the object at the address it is given
  (the destructuring), writes to no existing object, and allocates the result. An
  address that holds no \<open>SealInputs\<close> is excluded by the type of the parameter; the
  model answers \<open>None\<close> there.
\<close>

datatype obj = InputsObj SealInputs | ResultsObj SealResults

type_synonym heap = "obj list"

definition calculateHeatTransfer_heap :: "heap \<Rightarrow> nat \<Rightarrow> (nat \<times> heap) option" where
  "calculateHeatTransfer_heap h a =
     (if a < length h then
        (case h ! a of
           InputsObj inputs \<Rightarrow>
             Some (length h, h @ [ResultsObj (calculateHeatTransfer inputs)])
         | ResultsObj _ \<Rightarrow> None)
      else None)"

section \<open>Rounding\<close>

lemma two_powr_int: "(2::real) powr of_int e = 2 powi e"
  by (rule powr_real_of_int') simp_all

lemma two_powr_int_Suc: "(2::real) powr (of_int e + 1) = 2 powi (e + 1)"
  using two_powr_int [of "e + 1"] by simp

lemma expo_bounds:
  assumes "x \<noteq> 0"
  shows "2 powi expo x \<le> \<bar>x\<bar> \<and> \<bar>x\<bar> < 2 powi (expo x + 1)"
proof -
  have "0 < \<bar>x\<bar>" using assms by simp
  then have "(\<lfloor>log 2 \<bar>x\<bar>\<rfloor> = expo x) =
      (2 powr of_int (expo x) \<le> \<bar>x\<bar> \<and> \<bar>x\<bar> < 2 powr of_int (expo x + 1))"
    by (rule floor_log_eq_powr_iff) simp
  then show ?thesis
    by (simp add: expo_def two_powr_int two_powr_int_Suc)
qed

lemma expo_eq:
  assumes "2 powi e \<le> \<bar>x\<bar>" "\<bar>x\<bar> < 2 powi (e + 1)"
  shows "expo x = e"
proof -
  have "0 < (2::real) powi e" by simp
  then have "0 < \<bar>x\<bar>" using assms(1) by linarith
  then have "(\<lfloor>log 2 \<bar>x\<bar>\<rfloor> = e) =
      (2 powr of_int e \<le> \<bar>x\<bar> \<and> \<bar>x\<bar> < 2 powr of_int (e + 1))"
    by (rule floor_log_eq_powr_iff) simp
  then show ?thesis
    using assms by (simp add: expo_def two_powr_int two_powr_int_Suc)
qed

lemma two_powi_not_le_zero [simp]: "\<not> (2::real) powi a \<le> 0"
  by (simp add: not_le)

lemma two_powi_mono: "a \<le> b \<Longrightarrow> (2::real) powi a \<le> 2 powi b"
  by (rule power_int_increasing) simp_all

lemma two_powi_strict_mono: "a < b \<Longrightarrow> (2::real) powi a < 2 powi b"
  by (rule power_int_strict_increasing) simp_all

lemma two_powi_less_imp: "(2::real) powi a < 2 powi b \<Longrightarrow> a < b"
  by (rule ccontr) (use two_powi_mono [of b a] in simp)

lemma two_powi_Suc: "(2::real) powi (e + 1) = 2 * 2 powi e"
  by (simp add: power_int_add)

lemma two_powi_diff: "(2::real) powi (a - b) = 2 powi a / 2 powi b"
  by (simp add: power_int_diff)

lemma expo_mono:
  assumes "0 < x" "x \<le> y"
  shows "expo x \<le> expo y"
proof -
  have "2 powi expo x \<le> x" using expo_bounds [of x] assms by simp
  moreover have "y < 2 powi (expo y + 1)" using expo_bounds [of y] assms by simp
  ultimately have "(2::real) powi expo x < 2 powi (expo y + 1)" using assms by linarith
  then show ?thesis using two_powi_less_imp by fastforce
qed

lemma round_half_even_error: "\<bar>of_int (round_half_even r) - r\<bar> \<le> 1 / 2"
  unfolding round_half_even_def by (auto simp: abs_if) linarith+

lemma round_half_even_of_int [simp]: "round_half_even (of_int n) = n"
  by (simp add: round_half_even_def)

lemma round_half_even_numeral [simp]: "round_half_even (numeral n) = numeral n"
  using round_half_even_of_int [of "numeral n"] by simp

lemma round_half_even_zero [simp]: "round_half_even 0 = 0"
  by (simp add: round_half_even_def)

lemma round_half_even_mono:
  assumes "r \<le> s"
  shows "round_half_even r \<le> round_half_even s"
proof (cases "\<lfloor>r\<rfloor> = \<lfloor>s\<rfloor>")
  case True
  then show ?thesis
    using assms unfolding round_half_even_def by auto
next
  case False
  then have "\<lfloor>r\<rfloor> + 1 \<le> \<lfloor>s\<rfloor>"
    using assms floor_mono [of r s] by linarith
  moreover have "round_half_even r \<le> \<lfloor>r\<rfloor> + 1"
    unfolding round_half_even_def by auto
  moreover have "\<lfloor>s\<rfloor> \<le> round_half_even s"
    unfolding round_half_even_def by auto
  ultimately show ?thesis by linarith
qed

lemma quantum_pos [simp]: "0 < quantum x"
  by (simp add: quantum_def)

lemma quantum_nonneg [simp]: "0 \<le> quantum x"
  by (simp add: quantum_def)

lemma quantum_normal: "- 1022 \<le> expo x \<Longrightarrow> quantum x = 2 powi (expo x - 52)"
  by (simp add: quantum_def max_def)

lemma quantum_subnormal: "expo x \<le> - 1022 \<Longrightarrow> quantum x = 2 powi (- 1074)"
  by (simp add: quantum_def max_def)

lemma two_powi_of_int: "0 \<le> k \<Longrightarrow> (2::real) powi k = of_int (2 ^ nat k)"
  by (simp add: power_int_nonneg_exp)

lemma abs_scale:
  fixes a x q :: real
  assumes "0 < q"
  shows "\<bar>a - x / q\<bar> * q = \<bar>a * q - x\<bar>"
proof -
  have "a * q - x = (a - x / q) * q"
    using assms by (simp add: field_simps)
  then show ?thesis
    using assms by (simp add: abs_mult)
qed

text \<open>The nearest value of a normal \<open>x\<close> lies in the closed binade of \<open>x\<close>.\<close>

lemma nearest_normal:
  assumes "2 powi (- 1022) \<le> x"
  shows "2 powi expo x \<le> nearest x \<and> nearest x \<le> 2 powi (expo x + 1) \<and>
         \<bar>nearest x - x\<bar> \<le> 2 powi (expo x - 53)"
proof -
  have x: "0 < x" using assms zero_less_power_int [of "2::real" "- 1022"] by linarith
  then have b: "2 powi expo x \<le> x" "x < 2 powi (expo x + 1)"
    using expo_bounds [of x] by simp_all
  have "(2::real) powi (- 1022) < 2 powi (expo x + 1)" using assms b by linarith
  then have e: "- 1022 \<le> expo x" using two_powi_less_imp by fastforce
  define q where "q = (2::real) powi (expo x - 52)"
  have q: "quantum x = q" "0 < q" using e by (simp_all add: quantum_normal q_def)
  have q52: "2 ^ 52 * q = 2 powi expo x"
    unfolding q_def by (simp add: two_powi_diff)
  have q53: "2 ^ 53 * q = 2 powi (expo x + 1)"
    unfolding q_def by (simp add: two_powi_diff two_powi_Suc)
  have lo: "of_int (2 ^ 52) \<le> x / q"
    using b(1) q(2) q52 by (simp add: pos_le_divide_eq)
  have hi: "x / q \<le> of_int (2 ^ 53)"
    using b(2) q(2) q53 by (simp add: pos_divide_le_eq)
  have "round_half_even (of_int (2 ^ 52)) \<le> round_half_even (x / q)"
    using lo by (rule round_half_even_mono)
  then have m1: "2 ^ 52 \<le> round_half_even (x / q)" by simp
  have "round_half_even (x / q) \<le> round_half_even (of_int (2 ^ 53))"
    using hi by (rule round_half_even_mono)
  then have m2: "round_half_even (x / q) \<le> 2 ^ 53" by simp
  have n: "nearest x = of_int (round_half_even (x / q)) * q"
    using x by (simp add: nearest_def q)
  have "(2::real) ^ 52 \<le> of_int (round_half_even (x / q))"
    using m1 of_int_le_iff [of "2 ^ 52" "round_half_even (x / q)", where 'a = real] by simp
  then have 1: "2 powi expo x \<le> nearest x"
    unfolding n q52 [symmetric] using q(2) by (simp add: mult_right_mono)
  have "of_int (round_half_even (x / q)) \<le> (2::real) ^ 53"
    using m2 of_int_le_iff [of "round_half_even (x / q)" "2 ^ 53", where 'a = real] by simp
  then have 2: "nearest x \<le> 2 powi (expo x + 1)"
    unfolding n q53 [symmetric] using q(2) by (simp add: mult_right_mono)
  have "\<bar>of_int (round_half_even (x / q)) - x / q\<bar> * q \<le> 1 / 2 * q"
    using round_half_even_error [of "x / q"] q(2) by (simp add: mult_right_mono)
  moreover have "\<bar>of_int (round_half_even (x / q)) - x / q\<bar> * q = \<bar>nearest x - x\<bar>"
    using abs_scale [OF q(2)] by (simp add: n)
  moreover have "1 / 2 * q = 2 powi (expo x - 53)"
    unfolding q_def by (simp add: two_powi_diff)
  ultimately have 3: "\<bar>nearest x - x\<bar> \<le> 2 powi (expo x - 53)" by simp
  from 1 2 3 show ?thesis by simp
qed

text \<open>Below the normal range the quantum is \<open>2^-1074\<close>.\<close>

lemma nearest_subnormal:
  assumes "0 < x" "x < 2 powi (- 1022)"
  shows "0 \<le> nearest x \<and> nearest x \<le> 2 powi (- 1022) \<and>
         \<bar>nearest x - x\<bar> \<le> 2 powi (- 1075) \<and>
         nearest x = of_int (round_half_even (x / 2 powi (- 1074))) * 2 powi (- 1074)"
proof -
  have "2 powi expo x \<le> x" using expo_bounds [of x] assms by simp
  then have "(2::real) powi expo x < 2 powi (- 1022)" using assms by linarith
  then have e: "expo x \<le> - 1022" using two_powi_less_imp by fastforce
  define q where "q = (2::real) powi (- 1074)"
  have q: "quantum x = q" "0 < q" using e by (simp_all add: quantum_subnormal q_def)
  have q52: "2 ^ 52 * q = 2 powi (- 1022)"
    unfolding q_def by (simp add: power_int_minus field_simps)
  have "x / q \<le> of_int (2 ^ 52)"
    using assms(2) q(2) q52 by (simp add: pos_divide_le_eq)
  then have "round_half_even (x / q) \<le> round_half_even (of_int (2 ^ 52))"
    by (rule round_half_even_mono)
  then have m2: "round_half_even (x / q) \<le> 2 ^ 52" by simp
  have "0 \<le> x / q" using assms(1) q(2) by simp
  then have "round_half_even 0 \<le> round_half_even (x / q)"
    by (rule round_half_even_mono)
  then have m1: "0 \<le> round_half_even (x / q)" by simp
  have n: "nearest x = of_int (round_half_even (x / q)) * q"
    using assms(1) by (simp add: nearest_def q)
  have 1: "0 \<le> nearest x"
    unfolding n using m1 q(2) by simp
  have "of_int (round_half_even (x / q)) \<le> (2::real) ^ 52"
    using m2 of_int_le_iff [of "round_half_even (x / q)" "2 ^ 52", where 'a = real] by simp
  then have 2: "nearest x \<le> 2 powi (- 1022)"
    unfolding n q52 [symmetric] using q(2) by (simp add: mult_right_mono)
  have "\<bar>of_int (round_half_even (x / q)) - x / q\<bar> * q \<le> 1 / 2 * q"
    using round_half_even_error [of "x / q"] q(2) by (simp add: mult_right_mono)
  moreover have "\<bar>of_int (round_half_even (x / q)) - x / q\<bar> * q = \<bar>nearest x - x\<bar>"
    using abs_scale [OF q(2)] by (simp add: n)
  moreover have "1 / 2 * q = 2 powi (- 1075)"
    unfolding q_def by (simp add: power_int_minus field_simps)
  ultimately have 3: "\<bar>nearest x - x\<bar> \<le> 2 powi (- 1075)" by simp
  from 1 2 3 n show ?thesis unfolding q_def by blast
qed

lemma nearest_nonneg: "0 \<le> nearest x"
proof -
  have "0 \<le> \<bar>x\<bar> / quantum x" by simp
  then have "round_half_even 0 \<le> round_half_even (\<bar>x\<bar> / quantum x)"
    by (rule round_half_even_mono)
  then show ?thesis
    by (simp add: nearest_def)
qed

lemma nearest_minus [simp]: "nearest (- x) = nearest x"
  by (simp add: nearest_def quantum_def expo_def)

lemma nearest_abs [simp]: "nearest \<bar>x\<bar> = nearest x"
  by (simp add: nearest_def quantum_def expo_def)

text \<open>Rounding is monotone.\<close>

lemma nearest_mono:
  assumes "0 < x" "x \<le> y"
  shows "nearest x \<le> nearest y"
proof (cases "2 powi (- 1022) \<le> y")
  case y: True
  show ?thesis
  proof (cases "2 powi (- 1022) \<le> x")
    case x: True
    show ?thesis
    proof (cases "expo x = expo y")
      case True
      then have q: "quantum x = quantum y" by (simp add: quantum_def)
      have "x / quantum y \<le> y / quantum y"
        using assms by (simp add: divide_right_mono)
      then have "round_half_even (x / quantum y) \<le> round_half_even (y / quantum y)"
        by (rule round_half_even_mono)
      then have "(of_int (round_half_even (x / quantum y)) :: real)
          \<le> of_int (round_half_even (y / quantum y))"
        by simp
      then show ?thesis
        using assms by (simp add: nearest_def q mult_right_mono)
    next
      case False
      then have "expo x + 1 \<le> expo y" using expo_mono [OF assms] by simp
      then have "(2::real) powi (expo x + 1) \<le> 2 powi expo y" by (rule two_powi_mono)
      then show ?thesis
        using nearest_normal [OF x] nearest_normal [OF y] by linarith
    qed
  next
    case False
    then have "nearest x \<le> 2 powi (- 1022)"
      using nearest_subnormal [of x] assms by simp
    moreover have "(2::real) powi (- 1022) < 2 powi (expo y + 1)"
      using expo_bounds [of y] y assms by simp
    then have "- 1022 \<le> expo y" using two_powi_less_imp by fastforce
    then have "(2::real) powi (- 1022) \<le> 2 powi expo y" by (rule two_powi_mono)
    ultimately show ?thesis
      using nearest_normal [OF y] by linarith
  qed
next
  case False
  then have y: "0 < y" "y < 2 powi (- 1022)" using assms by simp_all
  then have x: "0 < x" "x < 2 powi (- 1022)" using assms by simp_all
  have "x / 2 powi (- 1074) \<le> y / 2 powi (- 1074)"
    using assms by (simp add: divide_right_mono)
  then have "round_half_even (x / 2 powi (- 1074)) \<le> round_half_even (y / 2 powi (- 1074))"
    by (rule round_half_even_mono)
  then have "(of_int (round_half_even (x / 2 powi (- 1074))) :: real)
      \<le> of_int (round_half_even (y / 2 powi (- 1074)))"
    by simp
  then show ?thesis
    using nearest_subnormal [OF x] nearest_subnormal [OF y] by (simp add: mult_right_mono)
qed

text \<open>The powers of two from \<open>2^-1074\<close> on are left unchanged.\<close>

lemma nearest_two_powi:
  assumes "- 1074 \<le> a"
  shows "nearest (2 powi a) = 2 powi a"
proof (cases "- 1022 \<le> a")
  case True
  have e: "expo (2 powi a) = a"
    by (rule expo_eq) (simp_all add: two_powi_Suc)
  have q: "quantum (2 powi a) = 2 powi (a - 52)"
    using True by (simp add: quantum_def e max_def)
  have "(2::real) powi a / 2 powi (a - 52) = of_int (2 ^ 52)"
    by (simp add: two_powi_diff)
  then have "round_half_even (\<bar>2 powi a\<bar> / quantum (2 powi a)) = 2 ^ 52"
    unfolding q by (simp del: of_int_power of_int_numeral)
  then show ?thesis
    by (simp add: nearest_def q two_powi_diff)
next
  case False
  have e: "expo (2 powi a) = a"
    by (rule expo_eq) (simp_all add: two_powi_Suc)
  have q: "quantum (2 powi a) = 2 powi (- 1074)"
    using False by (simp add: quantum_def e max_def)
  have "(2::real) powi a / 2 powi (- 1074) = 2 powi (a + 1074)"
    by (simp add: power_int_add power_int_minus field_simps)
  also have "\<dots> = of_int (2 ^ nat (a + 1074))"
    using assms by (simp add: power_int_nonneg_exp)
  finally have "round_half_even (\<bar>2 powi a\<bar> / quantum (2 powi a)) = 2 ^ nat (a + 1074)"
    unfolding q by (simp del: of_int_power)
  then have "nearest (2 powi a) = 2 powi (a + 1074) * 2 powi (- 1074)"
    using assms by (simp add: nearest_def q power_int_nonneg_exp)
  then show ?thesis
    by (simp add: power_int_add power_int_minus field_simps)
qed

lemma nearest_double:
  assumes "2 powi (- 1022) \<le> x"
  shows "nearest (2 * x) = 2 * nearest x"
proof -
  have x: "0 < x" using assms zero_less_power_int [of "2::real" "- 1022"] by linarith
  then have b: "2 powi expo x \<le> x" "x < 2 powi (expo x + 1)"
    using expo_bounds [of x] by simp_all
  have "(2::real) powi (- 1022) < 2 powi (expo x + 1)" using assms b by linarith
  then have e: "- 1022 \<le> expo x" using two_powi_less_imp by fastforce
  have e2: "expo (2 * x) = expo x + 1"
  proof (rule expo_eq)
    show "2 powi (expo x + 1) \<le> \<bar>2 * x\<bar>"
      using b x by (simp add: two_powi_Suc)
    have "(2::real) powi (expo x + 1 + 1) = 2 * 2 powi (expo x + 1)"
      by (rule two_powi_Suc)
    then show "\<bar>2 * x\<bar> < 2 powi (expo x + 1 + 1)"
      using b x by simp
  qed
  have q: "quantum (2 * x) = 2 * quantum x"
    using e by (simp add: quantum_def e2 max_def two_powi_diff two_powi_Suc)
  show ?thesis
    using x by (simp add: nearest_def q)
qed

lemma nearest_multiple:
  assumes "0 \<le> y" "y = of_int m * quantum y"
  shows "nearest y = y"
proof -
  have "y / quantum y = (of_int m * quantum y) / quantum y"
    using assms(2) by (rule arg_cong [where f = "\<lambda>t. t / quantum y"])
  also have "\<dots> = of_int m"
    using quantum_pos [of y] less_imp_neq [OF quantum_pos [of y]] by auto
  finally have "round_half_even (\<bar>y\<bar> / quantum y) = m"
    using assms(1) by simp
  then have "nearest y = of_int m * quantum y"
    by (simp add: nearest_def)
  then show ?thesis
    using assms(2) by simp
qed

lemma nearest_zero [simp]: "nearest 0 = 0"
  by (simp add: nearest_def)

text \<open>Rounding a rounded value changes nothing.\<close>

lemma nearest_idem_nonneg:
  assumes "0 \<le> x"
  shows "nearest (nearest x) = nearest x"
proof (cases "2 powi (- 1022) \<le> x")
  case True
  note n = nearest_normal [OF True]
  have x: "0 < x" using True zero_less_power_int [of "2::real" "- 1022"] by linarith
  show ?thesis
  proof (cases "nearest x = 2 powi (expo x + 1)")
    case eq: True
    have "(2::real) powi (- 1022) < 2 powi (expo x + 1)"
      using expo_bounds [of x] True x by simp
    then have "- 1074 \<le> expo x + 1" using two_powi_less_imp by fastforce
    then show ?thesis unfolding eq by (rule nearest_two_powi)
  next
    case False
    then have lt: "nearest x < 2 powi (expo x + 1)" using n by simp
    have e: "expo (nearest x) = expo x"
      using n lt nearest_nonneg [of x] by (intro expo_eq) simp_all
    have q: "quantum (nearest x) = quantum x"
      by (simp add: quantum_def e)
    have "nearest x = of_int (round_half_even (\<bar>x\<bar> / quantum x)) * quantum (nearest x)"
      unfolding q by (simp add: nearest_def)
    with nearest_nonneg show ?thesis by (rule nearest_multiple)
  qed
next
  case False
  show ?thesis
  proof (cases "x = 0")
    case True
    then show ?thesis by simp
  next
    case x: False
    then have s: "0 < x" "x < 2 powi (- 1022)" using False assms by simp_all
    note n = nearest_subnormal [OF s]
    show ?thesis
    proof (cases "nearest x = 0 \<or> nearest x = 2 powi (- 1022)")
      case True
      then show ?thesis
      proof (elim disjE)
        assume "nearest x = 0"
        then show ?thesis by simp
      next
        assume e: "nearest x = 2 powi (- 1022)"
        show ?thesis unfolding e by (rule nearest_two_powi) simp
      qed
    next
      case False
      then have r: "0 < nearest x" "nearest x < 2 powi (- 1022)" using n by simp_all
      have "2 powi expo (nearest x) \<le> nearest x"
        using expo_bounds [of "nearest x"] r by simp
      then have "(2::real) powi expo (nearest x) < 2 powi (- 1022)" using r by linarith
      then have "expo (nearest x) \<le> - 1022" using two_powi_less_imp by fastforce
      then have q: "quantum (nearest x) = 2 powi (- 1074)" by (rule quantum_subnormal)
      have "nearest x = of_int (round_half_even (x / 2 powi (- 1074))) * quantum (nearest x)"
        unfolding q using n by blast
      with nearest_nonneg show ?thesis by (rule nearest_multiple)
    qed
  qed
qed

lemma nearest_idem: "nearest (nearest x) = nearest x"
  using nearest_idem_nonneg [of "\<bar>x\<bar>"] by simp

lemma nearest_eval:
  assumes "2 powi e \<le> \<bar>x\<bar>" "\<bar>x\<bar> < 2 powi (e + 1)"
  shows "nearest x =
    of_int (round_half_even (\<bar>x\<bar> / 2 powi (max e (- 1022) - 52))) * 2 powi (max e (- 1022) - 52)"
  using expo_eq [OF assms] by (simp add: nearest_def quantum_def)

section \<open>Rounded results\<close>

lemma round64_pos:
  "0 < x \<Longrightarrow> round64 x =
     (if 2 ^ 1024 \<le> nearest x then PInf else if nearest x = 0 then Fin 0 else Fin (nearest x))"
  by (simp add: round64_def signed_inf_def signed_zero_def)

lemma round64_neg:
  "x < 0 \<Longrightarrow> round64 x =
     (if 2 ^ 1024 \<le> nearest x then NInf else if nearest x = 0 then NZero else Fin (- nearest x))"
  by (simp add: round64_def signed_inf_def signed_zero_def)

lemma round64_zero [simp]: "round64 0 = Fin 0"
  by (simp add: round64_def)

text \<open>A value between two powers of two rounds to a finite value between them.\<close>

lemma round64_inside:
  assumes "2 powi a \<le> x" "x \<le> 2 powi b" "- 1074 \<le> a" "b \<le> 1023"
  shows "\<exists>y. round64 x = Fin y \<and> 2 powi a \<le> y \<and> y \<le> 2 powi b"
proof -
  have x: "0 < x" using assms(1) zero_less_power_int [of "2::real" a] by linarith
  have "a \<le> b"
  proof (rule ccontr)
    assume "\<not> a \<le> b"
    then have "(2::real) powi b < 2 powi a" by (intro two_powi_strict_mono) simp
    then show False using assms(1,2) by linarith
  qed
  have "nearest (2 powi a) \<le> nearest x"
    using assms(1) by (intro nearest_mono) simp_all
  then have lo: "2 powi a \<le> nearest x"
    using nearest_two_powi [OF assms(3)] by simp
  have "nearest x \<le> nearest (2 powi b)"
    using x assms(2) by (rule nearest_mono)
  then have hi: "nearest x \<le> 2 powi b"
    using nearest_two_powi [of b] assms(3) \<open>a \<le> b\<close> by simp
  have "(2::real) powi b \<le> 2 powi 1023" using assms(4) by (rule two_powi_mono)
  also have "\<dots> < (2::real) ^ 1024" by simp
  finally have "nearest x < 2 ^ 1024" using hi by linarith
  moreover have "0 < nearest x" using lo zero_less_power_int [of "2::real" a] by linarith
  ultimately show ?thesis
    using lo hi by (simp add: round64_pos [OF x])
qed

text \<open>A positive value below a power of two rounds to a finite value below it.\<close>

lemma round64_upper:
  assumes "0 < x" "x \<le> 2 powi b" "- 1074 \<le> b" "b \<le> 1023"
  shows "\<exists>y. round64 x = Fin y \<and> 0 \<le> y \<and> y \<le> 2 powi b"
proof -
  have "nearest x \<le> nearest (2 powi b)"
    using assms(1,2) by (rule nearest_mono)
  then have hi: "nearest x \<le> 2 powi b"
    using nearest_two_powi [OF assms(3)] by simp
  have "(2::real) powi b \<le> 2 powi 1023" using assms(4) by (rule two_powi_mono)
  also have "\<dots> < (2::real) ^ 1024" by simp
  finally have "nearest x < 2 ^ 1024" using hi by linarith
  then show ?thesis
    using hi nearest_nonneg [of x] by (simp add: round64_pos [OF assms(1)])
qed

lemma round64_overflow:
  assumes "2 ^ 1024 \<le> x"
  shows "round64 x = PInf"
proof -
  have x: "0 < x" using assms by (smt (verit) zero_less_power)
  have "nearest (2 powi 1024) \<le> nearest x"
    using assms by (intro nearest_mono) simp_all
  then have "2 ^ 1024 \<le> nearest x"
    using nearest_two_powi [of 1024] by simp
  then show ?thesis
    by (simp add: round64_pos [OF x])
qed

text \<open>In the normal range the relative error of rounding is at most \<open>2^-53\<close>.\<close>

lemma round64_error:
  assumes "2 powi (- 1022) \<le> x" "x \<le> 2 powi 1023"
  shows "\<exists>y. round64 x = Fin y \<and> \<bar>y - x\<bar> \<le> 2 powi (- 53) * x"
proof -
  obtain y where y: "round64 x = Fin y" "2 powi (- 1022) \<le> y"
    using round64_inside [OF assms] by auto
  have x: "0 < x" using assms(1) zero_less_power_int [of "2::real" "- 1022"] by linarith
  have "0 < y" using y(2) zero_less_power_int [of "2::real" "- 1022"] by linarith
  then have n: "y = nearest x"
    using y(1) by (simp add: round64_pos [OF x] split: if_splits)
  have "\<bar>nearest x - x\<bar> \<le> 2 powi (expo x - 53)"
    using nearest_normal [OF assms(1)] by simp
  also have "\<dots> = 2 powi (- 53) * 2 powi expo x"
    using power_int_add [of "2::real" "- 53" "expo x"] by (simp add: add.commute)
  also have "\<dots> \<le> 2 powi (- 53) * x"
    using expo_bounds [of x] x by (intro mult_left_mono) simp_all
  finally show ?thesis using y(1) n by simp
qed

lemma round64_is_number: "is_number (round64 x)"
proof -
  consider "x = 0" | "0 < x" | "x < 0" by linarith
  then show ?thesis
  proof cases
    case 1
    then show ?thesis by (simp add: is_number_def)
  next
    case 2
    show ?thesis
    proof (cases "2 ^ 1024 \<le> nearest x \<or> nearest x = 0")
      case True
      then show ?thesis by (auto simp: round64_pos [OF 2] is_number_def)
    next
      case False
      then have "0 < nearest x" using nearest_nonneg [of x] by simp
      then have "round64 (nearest x) = Fin (nearest x)"
        using False by (simp add: round64_pos nearest_idem)
      then show ?thesis
        using False by (simp add: round64_pos [OF 2] is_number_def)
    qed
  next
    case 3
    show ?thesis
    proof (cases "2 ^ 1024 \<le> nearest x \<or> nearest x = 0")
      case True
      then show ?thesis by (auto simp: round64_neg [OF 3] is_number_def)
    next
      case False
      then have "- nearest x < 0" using nearest_nonneg [of x] by simp
      then have "round64 (- nearest x) = Fin (- nearest x)"
        using False by (simp add: round64_neg nearest_idem)
      then show ?thesis
        using False by (simp add: round64_neg [OF 3] is_number_def)
    qed
  qed
qed

lemma round64_mono:
  assumes "0 < x" "x \<le> y"
  shows "jle (round64 x) (round64 y)"
proof -
  have y: "0 < y" using assms by simp
  have "nearest x \<le> nearest y" using assms by (rule nearest_mono)
  then show ?thesis
    using nearest_nonneg [of x] by (auto simp: round64_pos [OF assms(1)] round64_pos [OF y])
qed

section \<open>Ranges of results\<close>

lemma inside_Fin: "inside a b x \<Longrightarrow> x = Fin (to_real x)"
  by (cases x) (auto simp: inside_def)

lemma inside_pos: "inside a b x \<Longrightarrow> 0 < to_real x"
  using zero_less_power_int [of "2::real" a] unfolding inside_def by linarith

lemma inside_FinI: "2 powi a \<le> r \<Longrightarrow> r \<le> 2 powi b \<Longrightarrow> inside a b (Fin r)"
  by (simp add: inside_def)

lemma inside_mono: "inside a b x \<Longrightarrow> a' \<le> a \<Longrightarrow> b \<le> b' \<Longrightarrow> inside a' b' x"
  using two_powi_mono [of a' a] two_powi_mono [of b b'] by (auto simp: inside_def)

lemma inside_below: "inside a b x \<Longrightarrow> below b x"
  using inside_pos [of a b x] by (auto simp: inside_def below_def)

lemma below_mono: "below b x \<Longrightarrow> b \<le> b' \<Longrightarrow> below b' x"
  using two_powi_mono [of b b'] by (auto simp: below_def)

lemma round64_inside_I:
  assumes "2 powi a \<le> x" "x \<le> 2 powi b" "- 1074 \<le> a" "b \<le> 1023"
  shows "inside a b (round64 x)"
  using round64_inside [OF assms] by (auto simp: inside_def)

lemma round64_below:
  assumes "0 \<le> x" "x \<le> 2 powi b" "- 1074 \<le> b" "b \<le> 1023"
  shows "below b (round64 x)"
proof (cases "x = 0")
  case True
  then show ?thesis by (simp add: below_def)
next
  case False
  then have "0 < x" using assms(1) by simp
  then show ?thesis
    using round64_upper [OF _ assms(2,3,4)] by (auto simp: below_def)
qed

lemma inside_num:
  "2 powi a \<le> c \<Longrightarrow> c \<le> 2 powi b \<Longrightarrow> - 1074 \<le> a \<Longrightarrow> b \<le> 1023 \<Longrightarrow> inside a b (num c)"
  unfolding num_def by (rule round64_inside_I)

lemma num_two_powi: "- 1074 \<le> a \<Longrightarrow> a \<le> 1023 \<Longrightarrow> num (2 powi a) = Fin (2 powi a)"
  using round64_inside [of a "2 powi a" a] by (auto simp: num_def)

lemma num_2 [simp]: "num 2 = Fin 2"
  using num_two_powi [of 1] by simp

lemma num_1 [simp]: "num 1 = Fin 1"
  using num_two_powi [of 0] by simp

lemma num_half [simp]: "num (1 / 2) = Fin (1 / 2)"
  using num_two_powi [of "- 1"] by simp

lemma jmul_Fin: "a \<noteq> 0 \<Longrightarrow> b \<noteq> 0 \<Longrightarrow> jmul (Fin a) (Fin b) = round64 (a * b)"
  by (simp add: jmul_def)

lemma jdiv_Fin: "a \<noteq> 0 \<Longrightarrow> b \<noteq> 0 \<Longrightarrow> jdiv (Fin a) (Fin b) = round64 (a / b)"
  by (simp add: jdiv_def)

lemma inside_jmul:
  assumes "inside a b x" "inside c d y" "- 1074 \<le> a + c" "b + d \<le> 1023"
  shows "inside (a + c) (b + d) (jmul x y)"
proof -
  note px = inside_pos [OF assms(1)] and py = inside_pos [OF assms(2)]
  have "jmul x y = round64 (to_real x * to_real y)"
    using inside_Fin [OF assms(1)] inside_Fin [OF assms(2)] px py
    by (metis jmul_Fin less_imp_neq)
  moreover have "2 powi a * 2 powi c \<le> to_real x * to_real y"
    using assms(1,2) px by (intro mult_mono) (simp_all add: inside_def)
  then have "2 powi (a + c) \<le> to_real x * to_real y"
    by (simp add: power_int_add)
  moreover have "to_real x * to_real y \<le> 2 powi b * 2 powi d"
    using assms(1,2) py by (intro mult_mono) (simp_all add: inside_def)
  then have "to_real x * to_real y \<le> 2 powi (b + d)"
    by (simp add: power_int_add)
  ultimately show ?thesis
    using assms(3,4) by (simp add: round64_inside_I)
qed

lemma inside_jdiv:
  assumes "inside a b x" "inside c d y" "- 1074 \<le> a - d" "b - c \<le> 1023"
  shows "inside (a - d) (b - c) (jdiv x y)"
proof -
  note px = inside_pos [OF assms(1)] and py = inside_pos [OF assms(2)]
  have "jdiv x y = round64 (to_real x / to_real y)"
    using inside_Fin [OF assms(1)] inside_Fin [OF assms(2)] px py
    by (metis jdiv_Fin less_imp_neq)
  moreover have "2 powi a / 2 powi d \<le> to_real x / to_real y"
    using assms(1,2) py less_imp_le [OF px] by (intro frac_le) (simp_all add: inside_def)
  then have "2 powi (a - d) \<le> to_real x / to_real y"
    by (simp add: two_powi_diff)
  moreover have "to_real x / to_real y \<le> 2 powi b / 2 powi c"
    using assms(1,2) px py by (intro frac_le) (simp_all add: inside_def)
  then have "to_real x / to_real y \<le> 2 powi (b - c)"
    by (simp add: two_powi_diff)
  ultimately show ?thesis
    using assms(3,4) by (simp add: round64_inside_I)
qed

lemma below_jmul:
  assumes "below b x" "below d y" "- 1074 \<le> b + d" "b + d \<le> 1023"
  shows "below (b + d) (jmul x y)"
proof (cases "is_zero x \<or> is_zero y")
  case True
  then have "is_zero (jmul x y)"
    using assms(1,2) by (cases x; cases y) (auto simp: below_def jmul_def signed_zero_def)
  then show ?thesis
    by (cases "jmul x y") (auto simp: below_def)
next
  case False
  then have "jmul x y = round64 (to_real x * to_real y)"
    using assms(1,2) by (cases x; cases y) (auto simp: below_def jmul_def)
  moreover have "0 \<le> to_real x * to_real y"
    using assms(1,2) by (simp add: below_def)
  moreover have "to_real x * to_real y \<le> 2 powi b * 2 powi d"
    using assms(1,2) by (intro mult_mono) (simp_all add: below_def)
  then have "to_real x * to_real y \<le> 2 powi (b + d)"
    by (simp add: power_int_add)
  ultimately show ?thesis
    using assms(3,4) by (simp add: round64_below)
qed

lemma below_jdiv:
  assumes "below b x" "inside c d y" "- 1074 \<le> b - c" "b - c \<le> 1023"
  shows "below (b - c) (jdiv x y)"
proof (cases "is_zero x")
  case True
  then have "is_zero (jdiv x y)"
    using inside_Fin [OF assms(2)] inside_pos [OF assms(2)]
    by (cases x; cases y) (auto simp: jdiv_def signed_zero_def)
  then show ?thesis
    by (cases "jdiv x y") (auto simp: below_def)
next
  case False
  note py = inside_pos [OF assms(2)]
  have "jdiv x y = round64 (to_real x / to_real y)"
    using False assms(1) inside_Fin [OF assms(2)] py
    by (cases x; cases y) (auto simp: below_def jdiv_def)
  moreover have "0 \<le> to_real x / to_real y"
    using assms(1) py by (simp add: below_def)
  moreover have "to_real x / to_real y \<le> 2 powi b / 2 powi c"
    using assms(1,2) py by (intro frac_le) (simp_all add: below_def inside_def)
  then have "to_real x / to_real y \<le> 2 powi (b - c)"
    by (simp add: two_powi_diff)
  ultimately show ?thesis
    using assms(3,4) by (simp add: round64_below)
qed

text \<open>Evaluation at a concrete normal value: the exponent and the significand are given.\<close>

lemma round64_eval:
  assumes "2 powi e \<le> x" "x < 2 powi (e + 1)" "- 1022 \<le> e" "e \<le> 1023"
    and "round_half_even (x / 2 powi (e - 52)) = m"
    and "m < 2 ^ 53" "y = of_int m * 2 powi (e - 52)"
  shows "round64 x = Fin y"
proof -
  have x: "0 < x" using assms(1) zero_less_power_int [of "2::real" e] by linarith
  have "nearest x = of_int (round_half_even (\<bar>x\<bar> / 2 powi (max e (- 1022) - 52))) *
      2 powi (max e (- 1022) - 52)"
    using assms(1,2) x by (intro nearest_eval) simp_all
  then have n: "nearest x = of_int m * 2 powi (e - 52)"
    using x assms(3,5) by (simp add: max_def)
  have "(2::real) powi (- 1022) \<le> 2 powi e" using assms(3) by (rule two_powi_mono)
  then have "2 powi (- 1022) \<le> x" using assms(1) by linarith
  then have "2 powi expo x \<le> nearest x" using nearest_normal [of x] by simp
  then have pos: "0 < nearest x"
    using zero_less_power_int [of "2::real" "expo x"] by linarith
  have "(of_int m :: real) < 2 ^ 53"
    using assms(6) of_int_less_iff [of m "2 ^ 53", where 'a = real] by simp
  then have "(of_int m :: real) * 2 powi (e - 52) < 2 ^ 53 * 2 powi (e - 52)"
    by (intro mult_strict_right_mono) simp_all
  also have "\<dots> = (2::real) powi (e + 1)"
    by (simp add: two_powi_diff two_powi_Suc)
  also have "\<dots> \<le> (2::real) powi 1024"
    using assms(4) by (intro two_powi_mono) simp
  finally have lt: "nearest x < 2 ^ 1024"
    unfolding n by simp
  show ?thesis
    using pos lt unfolding round64_pos [OF x] n assms(7) by simp
qed

lemma num_0_8: "num 0.8 = Fin (3602879701896397 / 4503599627370496)"
  unfolding num_def
  by (rule round64_eval [where e = "- 1" and m = 7205759403792794])
    (simp_all add: round_half_even_def power_int_minus)

lemma num_0_4: "num 0.4 = Fin (3602879701896397 / 9007199254740992)"
  unfolding num_def
  by (rule round64_eval [where e = "- 2" and m = 7205759403792794])
    (simp_all add: round_half_even_def power_int_minus)

lemma one_third: "jdiv (num 1.0) (num 3.0) = Fin (6004799503160661 / 18014398509481984)"
proof -
  have 3: "num 3 = Fin 3"
    unfolding num_def
    by (rule round64_eval [where e = 1 and m = 6755399441055744])
      (simp_all add: round_half_even_def power_int_minus)
  have "round64 (1 / 3) = Fin (6004799503160661 / 18014398509481984)"
    by (rule round64_eval [where e = "- 2" and m = 6004799503160661])
      (simp_all add: round_half_even_def power_int_minus)
  then show ?thesis
    by (simp add: 3 jdiv_def)
qed

lemma round64_two_powi: "- 1074 \<le> a \<Longrightarrow> a \<le> 1023 \<Longrightarrow> round64 (2 powi a) = Fin (2 powi a)"
  using num_two_powi [of a] by (simp add: num_def)

lemma round64_1 [simp]: "round64 1 = Fin 1"
  using round64_two_powi [of 0] by simp

section \<open>Powers and sums\<close>

lemma powr_between:
  fixes r p :: real
  assumes "0 < r" "0 < p" "p \<le> 1"
  shows "min 1 r \<le> r powr p \<and> r powr p \<le> max 1 r"
proof (cases "1 \<le> r")
  case True
  have "r powr 0 \<le> r powr p" using assms(2) True by (intro powr_mono) simp_all
  moreover have "r powr p \<le> r powr 1" using assms(3) True by (intro powr_mono) simp_all
  ultimately show ?thesis using True assms(1) by simp
next
  case False
  have "r powr p \<le> r powr 0" using assms False by (intro powr_mono') simp_all
  moreover have "r powr 1 \<le> r powr p" using assms False by (intro powr_mono') simp_all
  ultimately show ?thesis using False assms(1) by simp
qed

lemma jpow_pos:
  assumes "0 < r" "0 < p"
  shows "jpow (Fin r) (Fin p) = round64 (r powr p)"
  using assms by (simp add: jpow_def)

lemma jpow_zero_base:
  assumes "is_zero x" "0 < p"
  shows "is_zero (jpow x (Fin p))"
  using assms by (cases x) (auto simp: jpow_def)

lemma inside_jpow:
  assumes "inside a b x" "inside c 0 e" "- 1074 \<le> a" "b \<le> 1023"
  shows "inside (min a 0) (max b 0) (jpow x e)"
proof -
  note px = inside_pos [OF assms(1)] and pe = inside_pos [OF assms(2)]
  have e1: "to_real e \<le> 1" using assms(2) by (simp add: inside_def)
  have "jpow x e = round64 (to_real x powr to_real e)"
    using inside_Fin [OF assms(1)] inside_Fin [OF assms(2)] px pe by (metis jpow_pos)
  moreover have "2 powi (min a 0) \<le> min 1 (to_real x)"
    using assms(1) two_powi_mono [of "min a 0" a] two_powi_mono [of "min a 0" 0]
    by (simp add: inside_def)
  then have "2 powi (min a 0) \<le> to_real x powr to_real e"
    using powr_between [OF px pe e1] by linarith
  moreover have "max 1 (to_real x) \<le> 2 powi (max b 0)"
    using assms(1) two_powi_mono [of b "max b 0"] two_powi_mono [of 0 "max b 0"]
    by (simp add: inside_def)
  then have "to_real x powr to_real e \<le> 2 powi (max b 0)"
    using powr_between [OF px pe e1] by linarith
  ultimately show ?thesis
    using assms(3,4) by (simp add: round64_inside_I)
qed

lemma below_jpow:
  assumes "below b x" "inside c 0 e" "0 \<le> b" "b \<le> 1023"
  shows "below b (jpow x e)"
proof (cases "is_zero x")
  case True
  then have "is_zero (jpow x e)"
    using jpow_zero_base [of x "to_real e"] inside_Fin [OF assms(2)] inside_pos [OF assms(2)]
    by simp
  then show ?thesis
    by (cases "jpow x e") (auto simp: below_def)
next
  case False
  then have px: "0 < to_real x" "x = Fin (to_real x)"
    using assms(1) by (cases x; auto simp: below_def)+
  note pe = inside_pos [OF assms(2)]
  have e1: "to_real e \<le> 1" using assms(2) by (simp add: inside_def)
  have "jpow x e = round64 (to_real x powr to_real e)"
    using px inside_Fin [OF assms(2)] pe by (metis jpow_pos)
  moreover have "max 1 (to_real x) \<le> 2 powi b"
    using assms(1,3) two_powi_mono [of 0 b] by (simp add: below_def)
  then have "to_real x powr to_real e \<le> 2 powi b"
    using powr_between [OF px(1) pe e1] by linarith
  moreover have "0 \<le> to_real x powr to_real e" by simp
  ultimately show ?thesis
    using assms(3,4) by (simp add: round64_below)
qed

lemma inside_jpow_two:
  assumes "inside a b x" "- 1074 \<le> 2 * a" "2 * b \<le> 1023"
  shows "inside (2 * a) (2 * b) (jpow x (num 2))"
proof -
  note px = inside_pos [OF assms(1)]
  have "jpow x (num 2) = round64 (to_real x powr 2)"
    using inside_Fin [OF assms(1)] px jpow_pos [of "to_real x" 2] by simp
  then have "jpow x (num 2) = round64 (to_real x * to_real x)"
    using px by (simp add: power2_eq_square)
  moreover have "2 powi a * 2 powi a \<le> to_real x * to_real x"
    using assms(1) px by (intro mult_mono) (simp_all add: inside_def)
  then have "2 powi (2 * a) \<le> to_real x * to_real x"
    using power_int_add [of "2::real" a a] by simp
  moreover have "to_real x * to_real x \<le> 2 powi b * 2 powi b"
    using assms(1) px by (intro mult_mono) (simp_all add: inside_def)
  then have "to_real x * to_real x \<le> 2 powi (2 * b)"
    using power_int_add [of "2::real" b b] by simp
  ultimately show ?thesis
    using assms(2,3) by (simp add: round64_inside_I)
qed

lemma below_jpow_two:
  assumes "below b x" "0 \<le> b" "2 * b \<le> 1023"
  shows "below (2 * b) (jpow x (num 2))"
proof (cases "is_zero x")
  case True
  then have "is_zero (jpow x (num 2))"
    using jpow_zero_base [of x 2] by simp
  then show ?thesis
    by (cases "jpow x (num 2)") (auto simp: below_def)
next
  case False
  then have px: "0 < to_real x" "x = Fin (to_real x)"
    using assms(1) by (cases x; auto simp: below_def)+
  have "jpow x (num 2) = round64 (to_real x powr 2)"
    using px jpow_pos [of "to_real x" 2] by simp
  then have "jpow x (num 2) = round64 (to_real x * to_real x)"
    using px by (simp add: power2_eq_square)
  moreover have "to_real x * to_real x \<le> 2 powi b * 2 powi b"
    using assms(1) px by (intro mult_mono) (simp_all add: below_def)
  then have "to_real x * to_real x \<le> 2 powi (2 * b)"
    using power_int_add [of "2::real" b b] by simp
  moreover have "0 \<le> to_real x * to_real x" by simp
  ultimately show ?thesis
    using assms(2,3) by (simp add: round64_below)
qed

lemma below_jadd:
  assumes "below b x" "below b y" "- 1074 \<le> b" "b + 1 \<le> 1023"
  shows "below (b + 1) (jadd x y)"
proof (cases "x = NZero \<and> y = NZero")
  case True
  then show ?thesis by (simp add: jadd_def below_def)
next
  case False
  then have "jadd x y = round64 (to_real x + to_real y)"
    using assms(1,2) by (cases x; cases y) (auto simp: below_def jadd_def)
  moreover have "to_real x + to_real y \<le> 2 powi (b + 1)"
    using assms(1,2) by (simp add: below_def two_powi_Suc)
  moreover have "0 \<le> to_real x + to_real y"
    using assms(1,2) by (simp add: below_def)
  ultimately show ?thesis
    using assms(3,4) by (simp add: round64_below)
qed

lemma inside_jadd:
  assumes "inside a b x" "inside c b y" "- 1074 \<le> a" "b + 1 \<le> 1023"
  shows "inside a (b + 1) (jadd x y)"
proof -
  note px = inside_pos [OF assms(1)] and py = inside_pos [OF assms(2)]
  have "jadd x y = round64 (to_real x + to_real y)"
    using inside_Fin [OF assms(1)] inside_Fin [OF assms(2)]
    by (cases x; cases y) (auto simp: jadd_def)
  moreover have "to_real x + to_real y \<le> 2 powi (b + 1)"
    using assms(1,2) by (simp add: inside_def two_powi_Suc)
  moreover have "2 powi a \<le> to_real x + to_real y"
    using assms(1) py by (simp add: inside_def)
  ultimately show ?thesis
    using assms(3,4) by (simp add: round64_inside_I)
qed

section \<open>The outputs, one by one\<close>

lemma Re_rot_unfold:
  "Re_rot (calculateHeatTransfer i) =
     jdiv (jmul (jmul (jmul (rho i) (jdiv (jmul (jmul (num 2) Math_PI) (n_rpm i)) (num 60)))
                      (d_outer i)) (d_hyd i))
          (jmul (num 2) (mu i))"
  by (simp add: calculateHeatTransfer_def Let_def)

lemma Re_ax_unfold:
  "Re_ax (calculateHeatTransfer i) =
     jdiv (jmul (jmul (jmul (num 2) (rho i)) (u_axial i)) (delta_gap i)) (mu i)"
  by (simp add: calculateHeatTransfer_def Let_def)

lemma Nu_s_unfold:
  "Nu_s (calculateHeatTransfer i) =
     jmul (jmul (jmul (num 0.023) (B i)) (jpow (Re_ax (calculateHeatTransfer i)) (num 0.8)))
          (jpow (Pr i) (num 0.4))"
  by (simp add: calculateHeatTransfer_def Let_def)

lemma H_s_unfold:
  "H_s (calculateHeatTransfer i) =
     jdiv (jmul (Nu_s (calculateHeatTransfer i)) (lambda_gas i)) (jmul (num 2) (delta_gap i))"
  by (simp add: calculateHeatTransfer_def Let_def)

lemma Nu_r_unfold:
  "Nu_r (calculateHeatTransfer i) =
     jmul (num 0.135)
       (jpow (jmul (jadd (jmul (num 0.5) (jpow (Re_rot (calculateHeatTransfer i)) (num 2)))
                         (jpow (Re_ax (calculateHeatTransfer i)) (num 2)))
                   (Pr i))
             (jdiv (num 1.0) (num 3.0)))"
  by (simp add: calculateHeatTransfer_def Let_def)

lemma H_r_unfold:
  "H_r (calculateHeatTransfer i) =
     jdiv (jmul (Nu_r (calculateHeatTransfer i)) (lambda_gas i)) (d_hyd i)"
  by (simp add: calculateHeatTransfer_def Let_def)

section \<open>The constants\<close>

lemma inside_Math_PI: "inside 1 2 Math_PI"
  by (simp add: inside_def Math_PI_def)

lemma inside_two_pi: "inside 2 3 (jmul (num 2) Math_PI)"
  using inside_jmul [of 1 1 "num 2" 1 2 Math_PI] inside_Math_PI by (simp add: inside_def)

lemma inside_60: "inside 5 6 (num 60)"
  by (rule inside_num) simp_all

lemma inside_0_023: "inside (- 6) (- 5) (num 0.023)"
  by (rule inside_num) (simp_all add: power_int_minus)

lemma inside_0_135: "inside (- 3) (- 2) (num 0.135)"
  by (rule inside_num) (simp_all add: power_int_minus)

lemma inside_0_8: "inside (- 1) 0 (num 0.8)"
  by (rule inside_num) (simp_all add: power_int_minus)

lemma inside_0_4: "inside (- 2) 0 (num 0.4)"
  by (rule inside_num) (simp_all add: power_int_minus)

lemma inside_third: "inside (- 2) 0 (jdiv (num 1.0) (num 3.0))"
  unfolding one_third by (simp add: inside_def power_int_minus)

lemma inside_half: "inside (- 1) (- 1) (num 0.5)"
  by (simp add: inside_def power_int_minus)

lemma inside_2: "inside 1 1 (num 2)"
  by (simp add: inside_def)

lemma below_finite: "below b x \<Longrightarrow> is_finite x"
  by (simp add: below_def)

lemma inside_finite: "inside a b x \<Longrightarrow> is_finite x"
  by (simp add: inside_def)

section \<open>Inputs of moderate size\<close>

lemma moderate_below:
  assumes "moderate i"
  shows "below 317 (Re_rot (calculateHeatTransfer i))"
    and "below 257 (Re_ax (calculateHeatTransfer i))"
    and "below 385 (Nu_s (calculateHeatTransfer i))"
    and "below 512 (H_s (calculateHeatTransfer i))"
    and "below 699 (Nu_r (calculateHeatTransfer i))"
    and "below 827 (H_r (calculateHeatTransfer i))"
proof -
  from assms have i: "below 64 (d_outer i)" "below 64 (n_rpm i)" "below 64 (rho i)"
    "inside (- 64) 64 (mu i)" "below 64 (lambda_gas i)" "below 64 (Pr i)" "below 64 (u_axial i)"
    "inside (- 64) 64 (delta_gap i)" "inside (- 64) 64 (d_hyd i)" "below 64 (B i)"
    by (simp_all add: moderate_def)
  have 1: "below 67 (jmul (jmul (num 2) Math_PI) (n_rpm i))"
    using below_jmul [OF inside_below [OF inside_two_pi] i(2)] by simp
  have 2: "below 62 (jdiv (jmul (jmul (num 2) Math_PI) (n_rpm i)) (num 60))"
    using below_jdiv [OF 1 inside_60] by simp
  have 3: "below 126 (jmul (rho i) (jdiv (jmul (jmul (num 2) Math_PI) (n_rpm i)) (num 60)))"
    using below_jmul [OF i(3) 2] by simp
  have 4: "below 190 (jmul (jmul (rho i) (jdiv (jmul (jmul (num 2) Math_PI) (n_rpm i)) (num 60)))
      (d_outer i))"
    using below_jmul [OF 3 i(1)] by simp
  have 5: "below 254 (jmul (jmul (jmul (rho i)
      (jdiv (jmul (jmul (num 2) Math_PI) (n_rpm i)) (num 60))) (d_outer i)) (d_hyd i))"
    using below_jmul [OF 4 inside_below [OF i(9)]] by simp
  have dm: "inside (- 63) 65 (jmul (num 2) (mu i))"
    using inside_jmul [OF inside_2 i(4)] by simp
  show rot: "below 317 (Re_rot (calculateHeatTransfer i))"
    unfolding Re_rot_unfold using below_jdiv [OF 5 dm] by simp
  have 6: "below 65 (jmul (num 2) (rho i))"
    using below_jmul [OF inside_below [OF inside_2] i(3)] by simp
  have 7: "below 129 (jmul (jmul (num 2) (rho i)) (u_axial i))"
    using below_jmul [OF 6 i(7)] by simp
  have 8: "below 193 (jmul (jmul (jmul (num 2) (rho i)) (u_axial i)) (delta_gap i))"
    using below_jmul [OF 7 inside_below [OF i(8)]] by simp
  show ax: "below 257 (Re_ax (calculateHeatTransfer i))"
    unfolding Re_ax_unfold using below_jdiv [OF 8 i(4)] by simp
  have 9: "below 64 (jmul (num 0.023) (B i))"
    using below_jmul [OF below_mono [OF inside_below [OF inside_0_023], of 0] i(10)] by simp
  have 10: "below 257 (jpow (Re_ax (calculateHeatTransfer i)) (num 0.8))"
    using below_jpow [OF ax inside_0_8] by simp
  have 11: "below 321 (jmul (jmul (num 0.023) (B i))
      (jpow (Re_ax (calculateHeatTransfer i)) (num 0.8)))"
    using below_jmul [OF 9 10] by simp
  have 12: "below 64 (jpow (Pr i) (num 0.4))"
    using below_jpow [OF i(6) inside_0_4] by simp
  show nus: "below 385 (Nu_s (calculateHeatTransfer i))"
    unfolding Nu_s_unfold using below_jmul [OF 11 12] by simp
  have 13: "below 449 (jmul (Nu_s (calculateHeatTransfer i)) (lambda_gas i))"
    using below_jmul [OF nus i(5)] by simp
  have dd: "inside (- 63) 65 (jmul (num 2) (delta_gap i))"
    using inside_jmul [OF inside_2 i(8)] by simp
  show "below 512 (H_s (calculateHeatTransfer i))"
    unfolding H_s_unfold using below_jdiv [OF 13 dd] by simp
  have 14: "below 634 (jpow (Re_rot (calculateHeatTransfer i)) (num 2))"
    using below_jpow_two [OF rot] by simp
  have 15: "below 634 (jmul (num 0.5) (jpow (Re_rot (calculateHeatTransfer i)) (num 2)))"
    using below_jmul [OF below_mono [OF inside_below [OF inside_half], of 0] 14] by simp
  have 16: "below 634 (jpow (Re_ax (calculateHeatTransfer i)) (num 2))"
    using below_mono [OF below_jpow_two [OF ax], of 634] by simp
  have 17: "below 635 (jadd (jmul (num 0.5) (jpow (Re_rot (calculateHeatTransfer i)) (num 2)))
      (jpow (Re_ax (calculateHeatTransfer i)) (num 2)))"
    using below_jadd [OF 15 16] by simp
  have 18: "below 699 (jmul (jadd (jmul (num 0.5) (jpow (Re_rot (calculateHeatTransfer i)) (num 2)))
      (jpow (Re_ax (calculateHeatTransfer i)) (num 2))) (Pr i))"
    using below_jmul [OF 17 i(6)] by simp
  have 19: "below 699 (jpow (jmul (jadd (jmul (num 0.5)
      (jpow (Re_rot (calculateHeatTransfer i)) (num 2)))
      (jpow (Re_ax (calculateHeatTransfer i)) (num 2))) (Pr i)) (jdiv (num 1.0) (num 3.0)))"
    using below_jpow [OF 18 inside_third] by simp
  show nur: "below 699 (Nu_r (calculateHeatTransfer i))"
    unfolding Nu_r_unfold
    using below_jmul [OF below_mono [OF inside_below [OF inside_0_135], of 0] 19] by simp
  have 20: "below 763 (jmul (Nu_r (calculateHeatTransfer i)) (lambda_gas i))"
    using below_jmul [OF nur i(5)] by simp
  show "below 827 (H_r (calculateHeatTransfer i))"
    unfolding H_r_unfold using below_jdiv [OF 20 i(9)] by simp
qed

section \<open>Special values\<close>

lemma round64_not_nan [simp]: "\<not> is_nan (round64 x)"
  by (simp add: round64_def signed_inf_def signed_zero_def)

lemma jdiv_zero_not_finite: "is_zero b \<Longrightarrow> \<not> is_finite (jdiv a b)"
  by (cases a; cases b) (auto simp: jdiv_def signed_inf_def)

lemma jmul_two_zero: "is_zero b \<Longrightarrow> is_zero (jmul (Fin 2) b)"
  by (cases b) (auto simp: jmul_def signed_zero_def)

lemma jmul_not_finite_left: "\<not> is_finite a \<Longrightarrow> \<not> is_finite (jmul a b)"
  by (cases a; cases b) (auto simp: jmul_def signed_inf_def)

lemma jmul_not_finite_right: "\<not> is_finite b \<Longrightarrow> \<not> is_finite (jmul a b)"
  by (cases a; cases b) (auto simp: jmul_def signed_inf_def)

lemma jdiv_not_finite_left: "\<not> is_finite a \<Longrightarrow> \<not> is_finite (jdiv a b)"
  by (cases a; cases b) (auto simp: jdiv_def signed_inf_def)

lemma jmul_PInf_right: "inside a b x \<Longrightarrow> jmul x PInf = PInf"
  using inside_pos [of a b x] by (cases x) (auto simp: inside_def jmul_def signed_inf_def)

lemma jmul_PInf_left: "inside a b x \<Longrightarrow> jmul PInf x = PInf"
  using inside_pos [of a b x] by (cases x) (auto simp: inside_def jmul_def signed_inf_def)

lemma jdiv_PInf_left: "inside a b x \<Longrightarrow> jdiv PInf x = PInf"
  using inside_pos [of a b x] by (cases x) (auto simp: inside_def jdiv_def signed_inf_def)

lemma jdiv_zero_right: "inside a b x \<Longrightarrow> jdiv x (Fin 0) = PInf"
  using inside_pos [of a b x] by (cases x) (auto simp: inside_def jdiv_def signed_inf_def)

lemma jpow_PInf: "inside a b e \<Longrightarrow> jpow PInf e = PInf"
  using inside_pos [of a b e] by (cases e) (auto simp: inside_def jpow_def)

lemma jadd_PInf [simp]: "jadd PInf PInf = PInf"
  by (simp add: jadd_def)

lemma num_0_8_not_integer: "\<not> is_integer (to_real (num 0.8))"
proof -
  have "\<lfloor>3602879701896397 / 4503599627370496 :: real\<rfloor> = 0"
    by (simp add: floor_eq_iff)
  then show ?thesis
    unfolding num_0_8 by (simp add: is_integer_def)
qed

lemma jpow_not_nonnegative:
  assumes "\<not> nonnegative x"
  shows "\<not> is_finite (jpow x (num 0.8))"
proof -
  have e: "num 0.8 = Fin (to_real (num 0.8))" "0 < to_real (num 0.8)"
    using inside_Fin [OF inside_0_8] inside_pos [OF inside_0_8] by simp_all
  have i: "\<not> is_integer (to_real (num 0.8))"
    by (rule num_0_8_not_integer)
  then have o: "\<not> is_odd_integer (to_real (num 0.8))"
    by (simp add: is_integer_def is_odd_integer_def)
  show ?thesis
  proof (cases x)
    case (Fin r)
    then have "r < 0" using assms by (simp add: nonnegative_def)
    then have "jpow (Fin r) (Fin (to_real (num 0.8))) = NaN"
      using e(2) i by (simp add: jpow_def)
    then show ?thesis using e(1) Fin by simp
  next
    case NInf
    have "jpow NInf (Fin (to_real (num 0.8))) = PInf"
      using e(2) o by (simp add: jpow_def)
    then show ?thesis using e(1) NInf by simp
  next
    case PInf
    have "jpow PInf (Fin (to_real (num 0.8))) = PInf"
      using e(2) by (simp add: jpow_def)
    then show ?thesis using e(1) PInf by simp
  next
    case NaN
    have "jpow NaN (Fin (to_real (num 0.8))) = NaN"
      using e(2) by (simp add: jpow_def)
    then show ?thesis using e(1) NaN by simp
  next
    case NZero
    then show ?thesis using assms by (simp add: nonnegative_def)
  qed
qed

section \<open>The reference inputs\<close>

lemma INITIAL_INPUTS_inside:
  "inside (- 3) (- 2) (d_outer INITIAL_INPUTS)"
  "inside 13 14 (n_rpm INITIAL_INPUTS)"
  "inside 0 1 (rho INITIAL_INPUTS)"
  "inside (- 16) (- 15) (mu INITIAL_INPUTS)"
  "inside (- 6) (- 5) (lambda_gas INITIAL_INPUTS)"
  "inside (- 1) 0 (Pr INITIAL_INPUTS)"
  "inside 2 3 (u_axial INITIAL_INPUTS)"
  "inside (- 18) (- 17) (delta_gap INITIAL_INPUTS)"
  "inside (- 17) (- 16) (d_hyd INITIAL_INPUTS)"
  "inside 1 1 (B INITIAL_INPUTS)"
  unfolding INITIAL_INPUTS_def
  using inside_2 by (simp_all add: inside_num power_int_minus)

lemma inside_positive: "inside a b x \<Longrightarrow> positive x"
  using inside_pos [of a b x] by (simp add: positive_def inside_def)

lemma positive_nonnegative: "positive x \<Longrightarrow> nonnegative x"
  by (simp add: positive_def nonnegative_def)

lemma valid_INITIAL_INPUTS: "valid INITIAL_INPUTS"
  unfolding valid_def
  by (intro conjI inside_positive [OF INITIAL_INPUTS_inside(1)]
      positive_nonnegative [OF inside_positive [OF INITIAL_INPUTS_inside(2)]]
      inside_positive [OF INITIAL_INPUTS_inside(3)] inside_positive [OF INITIAL_INPUTS_inside(4)]
      inside_positive [OF INITIAL_INPUTS_inside(5)] inside_positive [OF INITIAL_INPUTS_inside(6)]
      positive_nonnegative [OF inside_positive [OF INITIAL_INPUTS_inside(7)]]
      inside_positive [OF INITIAL_INPUTS_inside(8)] inside_positive [OF INITIAL_INPUTS_inside(9)]
      inside_positive [OF INITIAL_INPUTS_inside(10)])

lemma inside_below_le: "inside a b x \<Longrightarrow> b \<le> c \<Longrightarrow> below c x"
  using below_mono [OF inside_below] by blast

lemma moderate_INITIAL_INPUTS: "moderate INITIAL_INPUTS"
  unfolding moderate_def
  using inside_below_le [OF INITIAL_INPUTS_inside(1), of 64]
    inside_below_le [OF INITIAL_INPUTS_inside(2), of 64]
    inside_below_le [OF INITIAL_INPUTS_inside(3), of 64]
    inside_mono [OF INITIAL_INPUTS_inside(4), of "- 64" 64]
    inside_below_le [OF INITIAL_INPUTS_inside(5), of 64]
    inside_below_le [OF INITIAL_INPUTS_inside(6), of 64]
    inside_below_le [OF INITIAL_INPUTS_inside(7), of 64]
    inside_mono [OF INITIAL_INPUTS_inside(8), of "- 64" 64]
    inside_mono [OF INITIAL_INPUTS_inside(9), of "- 64" 64]
    inside_below_le [OF INITIAL_INPUTS_inside(10), of 64]
  by simp

section \<open>Inputs outside the domain\<close>

lemma mu_zero_not_finite:
  assumes "is_zero (mu i)"
  shows "\<not> is_finite (Re_rot (calculateHeatTransfer i)) \<and>
         \<not> is_finite (Re_ax (calculateHeatTransfer i))"
  unfolding Re_rot_unfold Re_ax_unfold
  using assms by (simp add: jdiv_zero_not_finite jmul_two_zero)

lemma delta_gap_zero_not_finite:
  assumes "is_zero (delta_gap i)"
  shows "\<not> is_finite (H_s (calculateHeatTransfer i))"
  unfolding H_s_unfold
  using assms by (simp add: jdiv_zero_not_finite jmul_two_zero)

lemma Re_ax_not_nonnegative:
  assumes "\<not> nonnegative (Re_ax (calculateHeatTransfer i))"
  shows "\<not> is_finite (Nu_s (calculateHeatTransfer i)) \<and>
         \<not> is_finite (H_s (calculateHeatTransfer i))"
proof -
  have n: "\<not> is_finite (Nu_s (calculateHeatTransfer i))"
    unfolding Nu_s_unfold
    using jpow_not_nonnegative [OF assms] by (simp add: jmul_not_finite_left jmul_not_finite_right)
  then have "\<not> is_finite (H_s (calculateHeatTransfer i))"
    unfolding H_s_unfold by (simp add: jmul_not_finite_left jdiv_not_finite_left)
  with n show ?thesis by simp
qed

text \<open>
  C3, as stated, fails: with \<open>mu = 0\<close> and the other reference inputs the call does
  not fail with \<open>InvalidInputError\<close>; it performs the arithmetic and returns a
  \<open>SealResults\<close> whose six fields are \<open>+Infinity\<close>.
\<close>

theorem compute_mu_zero_counterexample:
  "compute (INITIAL_INPUTS\<lparr>mu := Fin 0\<rparr>) =
     Inr \<lparr>Re_rot = PInf, Re_ax = PInf, Nu_s = PInf, H_s = PInf, Nu_r = PInf, H_r = PInf\<rparr>"
proof -
  let ?i = "INITIAL_INPUTS\<lparr>mu := Fin 0\<rparr>"
  note I = INITIAL_INPUTS_inside
  have 1: "inside 15 17 (jmul (jmul (num 2) Math_PI) (n_rpm INITIAL_INPUTS))"
    using inside_jmul [OF inside_two_pi I(2)] by simp
  have 2: "inside 9 12 (jdiv (jmul (jmul (num 2) Math_PI) (n_rpm INITIAL_INPUTS)) (num 60))"
    using inside_jdiv [OF 1 inside_60] by simp
  have 3: "inside 9 13 (jmul (rho INITIAL_INPUTS)
      (jdiv (jmul (jmul (num 2) Math_PI) (n_rpm INITIAL_INPUTS)) (num 60)))"
    using inside_jmul [OF I(3) 2] by simp
  have 4: "inside 6 11 (jmul (jmul (rho INITIAL_INPUTS)
      (jdiv (jmul (jmul (num 2) Math_PI) (n_rpm INITIAL_INPUTS)) (num 60))) (d_outer INITIAL_INPUTS))"
    using inside_jmul [OF 3 I(1)] by simp
  have 5: "inside (- 11) (- 5) (jmul (jmul (jmul (rho INITIAL_INPUTS)
      (jdiv (jmul (jmul (num 2) Math_PI) (n_rpm INITIAL_INPUTS)) (num 60))) (d_outer INITIAL_INPUTS))
      (d_hyd INITIAL_INPUTS))"
    using inside_jmul [OF 4 I(9)] by simp
  have z: "jmul (Fin 2) (Fin 0) = Fin 0"
    by (simp add: jmul_def signed_zero_def)
  have rot: "Re_rot (calculateHeatTransfer ?i) = PInf"
    unfolding Re_rot_unfold using jdiv_zero_right [OF 5] by (simp add: z)
  have 6: "inside 1 2 (jmul (num 2) (rho INITIAL_INPUTS))"
    using inside_jmul [OF inside_2 I(3)] by simp
  have 7: "inside 3 5 (jmul (jmul (num 2) (rho INITIAL_INPUTS)) (u_axial INITIAL_INPUTS))"
    using inside_jmul [OF 6 I(7)] by simp
  have 8: "inside (- 15) (- 12) (jmul (jmul (jmul (num 2) (rho INITIAL_INPUTS))
      (u_axial INITIAL_INPUTS)) (delta_gap INITIAL_INPUTS))"
    using inside_jmul [OF 7 I(8)] by simp
  have ax: "Re_ax (calculateHeatTransfer ?i) = PInf"
    unfolding Re_ax_unfold using jdiv_zero_right [OF 8] by simp
  have 9: "inside (- 5) (- 4) (jmul (num 0.023) (B INITIAL_INPUTS))"
    using inside_jmul [OF inside_0_023 I(10)] by simp
  have 10: "inside (- 1) 0 (jpow (Pr INITIAL_INPUTS) (num 0.4))"
    using inside_jpow [OF I(6) inside_0_4] by simp
  have nus: "Nu_s (calculateHeatTransfer ?i) = PInf"
    unfolding Nu_s_unfold ax
    using jmul_PInf_right [OF 9] jmul_PInf_left [OF 10] jpow_PInf [OF inside_0_8] by simp
  have 11: "inside (- 17) (- 16) (jmul (num 2) (delta_gap INITIAL_INPUTS))"
    using inside_jmul [OF inside_2 I(8)] by simp
  have hs: "H_s (calculateHeatTransfer ?i) = PInf"
    unfolding H_s_unfold nus
    using jmul_PInf_left [OF I(5)] jdiv_PInf_left [OF 11] by simp
  have nur: "Nu_r (calculateHeatTransfer ?i) = PInf"
    unfolding Nu_r_unfold rot ax
    using jmul_PInf_right [OF inside_half] jmul_PInf_left [OF I(6)]
      jmul_PInf_right [OF inside_0_135] jpow_PInf [OF inside_2] jpow_PInf [OF inside_third]
    by simp
  have hr: "H_r (calculateHeatTransfer ?i) = PInf"
    unfolding H_r_unfold nur
    using jmul_PInf_left [OF I(5)] jdiv_PInf_left [OF I(9)] by simp
  show ?thesis
    unfolding compute_def using rot ax nus hs nur hr
    by (cases "calculateHeatTransfer ?i") simp
qed

text \<open>
  C3, amended: the function validates nothing. On an input record that violates the
  domain constraints the call still completes normally and returns a \<open>SealResults\<close>;
  no \<open>InvalidInputError\<close> is raised. With \<open>mu = 0\<close> the returned \<open>Re_rot\<close> and \<open>Re_ax\<close>
  are not finite, and with \<open>delta_gap = 0\<close> the returned \<open>H_s\<close> is not finite.
\<close>

theorem compute_no_validation:
  assumes "\<not> valid i"
  shows "\<exists>r. compute i = Inr r \<and>
             (is_zero (mu i) \<longrightarrow> \<not> is_finite (Re_rot r) \<and> \<not> is_finite (Re_ax r)) \<and>
             (is_zero (delta_gap i) \<longrightarrow> \<not> is_finite (H_s r))"
  unfolding compute_def
  using mu_zero_not_finite [of i] delta_gap_zero_not_finite [of i] by simp

theorem compute_no_validation_witness:
  "\<not> valid (INITIAL_INPUTS\<lparr>mu := Fin 0, delta_gap := Fin 0\<rparr>) \<and>
   (\<exists>r. compute (INITIAL_INPUTS\<lparr>mu := Fin 0, delta_gap := Fin 0\<rparr>) = Inr r \<and>
        \<not> is_finite (Re_rot r) \<and> \<not> is_finite (Re_ax r) \<and> \<not> is_finite (H_s r))"
proof -
  have n: "\<not> valid (INITIAL_INPUTS\<lparr>mu := Fin 0, delta_gap := Fin 0\<rparr>)"
    by (simp add: valid_def positive_def)
  show ?thesis
    using compute_no_validation [OF n] n by simp
qed

text \<open>
  C9: the call is total. For every input record whatsoever it completes normally with
  a \<open>SealResults\<close> and raises no error. A violation of the domain shows in the numbers
  instead: with \<open>mu = 0\<close> neither \<open>Re_rot\<close> nor \<open>Re_ax\<close> is finite; and whenever the
  returned \<open>Re_ax\<close> is not a finite non-negative number (it is negative when \<open>delta_gap\<close>
  is negative and the product does not underflow to a zero, and it is an infinity or
  \<open>NaN\<close> when \<open>mu\<close> is a zero), neither \<open>Nu_s\<close> nor \<open>H_s\<close> is finite.
\<close>

theorem calculateHeatTransfer_total:
  "(\<exists>r. compute i = Inr r) \<and> (\<forall>e. compute i \<noteq> Inl e) \<and>
   (is_zero (mu i) \<longrightarrow>
      \<not> is_finite (Re_rot (calculateHeatTransfer i)) \<and>
      \<not> is_finite (Re_ax (calculateHeatTransfer i))) \<and>
   (\<not> nonnegative (Re_ax (calculateHeatTransfer i)) \<longrightarrow>
      \<not> is_finite (Nu_s (calculateHeatTransfer i)) \<and>
      \<not> is_finite (H_s (calculateHeatTransfer i)))"
  using mu_zero_not_finite [of i] Re_ax_not_nonnegative [of i]
  by (simp add: compute_def)

section \<open>Finite outputs\<close>

text \<open>
  C4, amended: for every input record that satisfies the domain constraints and whose
  ten inputs are at most \<open>2^64\<close>, with \<open>mu\<close>, \<open>delta_gap\<close> and \<open>d_hyd\<close> at least \<open>2^-64\<close>,
  the call returns and all six outputs are finite.
\<close>

theorem calculateHeatTransfer_finite:
  assumes "valid i" "moderate i"
  shows "\<exists>r. compute i = Inr r \<and> is_finite (Re_rot r) \<and> is_finite (Re_ax r) \<and>
           is_finite (Nu_s r) \<and> is_finite (H_s r) \<and> is_finite (Nu_r r) \<and> is_finite (H_r r)"
  unfolding compute_def
  using moderate_below [OF assms(2)] by (simp add: below_finite)

theorem calculateHeatTransfer_finite_witness:
  "valid INITIAL_INPUTS \<and> moderate INITIAL_INPUTS \<and>
   (\<exists>r. compute INITIAL_INPUTS = Inr r \<and> is_finite (Re_rot r) \<and> is_finite (Re_ax r) \<and>
        is_finite (Nu_s r) \<and> is_finite (H_s r) \<and> is_finite (Nu_r r) \<and> is_finite (H_r r))"
  using calculateHeatTransfer_finite [OF valid_INITIAL_INPUTS moderate_INITIAL_INPUTS]
    valid_INITIAL_INPUTS moderate_INITIAL_INPUTS by simp

lemma round64_uminus:
  assumes "2 powi a \<le> x" "x \<le> 2 powi b" "- 1074 \<le> a" "b \<le> 1023"
  shows "\<exists>y. round64 (- x) = Fin (- y) \<and> 2 powi a \<le> y \<and> y \<le> 2 powi b"
proof -
  have x: "0 < x" using assms(1) zero_less_power_int [of "2::real" a] by linarith
  obtain y where y: "round64 x = Fin y" "2 powi a \<le> y" "y \<le> 2 powi b"
    using round64_inside [OF assms] by blast
  have y0: "0 < y" using y(2) zero_less_power_int [of "2::real" a] by linarith
  have n: "nearest x = y \<and> \<not> 2 ^ 1024 \<le> nearest x"
    using y(1) y0 unfolding round64_pos [OF x] by (auto split: if_splits)
  have "round64 (- x) = Fin (- y)"
    using x n y0 by (simp add: round64_neg)
  then show ?thesis using y(2,3) by blast
qed

theorem calculateHeatTransfer_total_witness:
  "is_zero (mu (INITIAL_INPUTS\<lparr>mu := Fin 0, delta_gap := Fin (- 1)\<rparr>)) \<and>
   Re_ax (calculateHeatTransfer (INITIAL_INPUTS\<lparr>mu := Fin 0, delta_gap := Fin (- 1)\<rparr>)) = NInf \<and>
   (\<exists>r. compute (INITIAL_INPUTS\<lparr>mu := Fin 0, delta_gap := Fin (- 1)\<rparr>) = Inr r \<and>
        \<not> is_finite (Re_rot r) \<and> \<not> is_finite (Re_ax r) \<and>
        \<not> is_finite (Nu_s r) \<and> \<not> is_finite (H_s r))"
proof -
  let ?i = "INITIAL_INPUTS\<lparr>mu := Fin 0, delta_gap := Fin (- 1)\<rparr>"
  note I = INITIAL_INPUTS_inside
  have 6: "inside 1 2 (jmul (num 2) (rho INITIAL_INPUTS))"
    using inside_jmul [OF inside_2 I(3)] by simp
  have 7: "inside 3 5 (jmul (jmul (num 2) (rho INITIAL_INPUTS)) (u_axial INITIAL_INPUTS))"
    using inside_jmul [OF 6 I(7)] by simp
  define x where "x = to_real (jmul (jmul (num 2) (rho INITIAL_INPUTS)) (u_axial INITIAL_INPUTS))"
  have x: "jmul (jmul (num 2) (rho INITIAL_INPUTS)) (u_axial INITIAL_INPUTS) = Fin x"
    "2 powi 3 \<le> x" "x \<le> 2 powi 5"
    using inside_Fin [OF 7] 7 by (simp_all add: x_def inside_def)
  obtain y where y: "round64 (- x) = Fin (- y)" "2 powi 3 \<le> y"
    using round64_uminus [OF x(2,3)] by auto
  have y0: "0 < y" using y(2) by simp
  have x0: "x \<noteq> 0" using x(2) by auto
  have "jmul (Fin x) (Fin (- 1)) = Fin (- y)"
    using x0 y(1) by (simp add: jmul_def)
  then have "jdiv (jmul (Fin x) (Fin (- 1))) (Fin 0) = NInf"
    using y0 by (simp add: jdiv_def signed_inf_def)
  then have ax: "Re_ax (calculateHeatTransfer ?i) = NInf"
    unfolding Re_ax_unfold using x(1) by simp
  have h: "is_zero (mu ?i)" "\<not> nonnegative (Re_ax (calculateHeatTransfer ?i))"
    unfolding ax by (simp_all add: nonnegative_def)
  show ?thesis
    using calculateHeatTransfer_total [of ?i] h ax by (simp add: compute_def)
qed

section \<open>The zero-speed boundary\<close>

lemma number_positive:
  assumes "is_number x" "positive x"
  shows "2 powi (- 1074) \<le> to_real x" "nearest (to_real x) = to_real x" "to_real x < 2 ^ 1024"
proof -
  obtain r where r: "x = Fin r" "0 < r"
    using assms(2) by (cases x) (auto simp: positive_def)
  have "round64 r = Fin r" using assms(1) r(1) by (simp add: is_number_def)
  then have n: "nearest r = r \<and> \<not> 2 ^ 1024 \<le> nearest r"
    using r(2) unfolding round64_pos [OF r(2)] by (auto split: if_splits)
  show "nearest (to_real x) = to_real x" "to_real x < 2 ^ 1024"
    using n r(1) by simp_all
  show "2 powi (- 1074) \<le> to_real x"
  proof (rule ccontr)
    assume "\<not> 2 powi (- 1074) \<le> to_real x"
    then have lt: "r < 2 powi (- 1074)" using r(1) by simp
    have "(2::real) powi (- 1074) \<le> 2 powi (- 1022)" by (rule two_powi_mono) simp
    then have "r < 2 powi (- 1022)" using lt by linarith
    then have m: "nearest r = of_int (round_half_even (r / 2 powi (- 1074))) * 2 powi (- 1074)"
      using nearest_subnormal [OF r(2)] by blast
    define k where "k = round_half_even (r / 2 powi (- 1074))"
    have kr: "of_int k * 2 powi (- 1074) = r" using m n by (simp add: k_def)
    have "0 < of_int k * (2::real) powi (- 1074)" using kr r(2) by simp
    then have "0 < (of_int k :: real)"
      using zero_less_mult_pos2 [of "of_int k" "2 powi (- 1074)"] by simp
    then have "1 \<le> k" by simp
    then have "(1::real) \<le> of_int k" using of_int_le_iff [of 1 k, where 'a = real] by simp
    then have "1 * 2 powi (- 1074) \<le> of_int k * (2::real) powi (- 1074)"
      by (intro mult_right_mono) simp_all
    then have "2 powi (- 1074) \<le> r" unfolding kr by simp
    then show False using lt by linarith
  qed
qed

lemma round64_finite_le:
  assumes "is_number x" "positive x" "0 \<le> y" "y \<le> to_real x"
  shows "is_finite (round64 y)"
proof (cases "y = 0")
  case True
  then show ?thesis by simp
next
  case False
  then have y: "0 < y" using assms(3) by simp
  have "nearest y \<le> nearest (to_real x)" using y assms(4) by (rule nearest_mono)
  then have "\<not> 2 ^ 1024 \<le> nearest y"
    using number_positive(2,3) [OF assms(1,2)] by linarith
  then show ?thesis
    by (simp add: round64_pos [OF y])
qed

lemma round64_not_zero:
  assumes "2 powi (- 1074) \<le> y"
  shows "\<not> is_zero (round64 y)"
proof -
  have y: "0 < y" using assms zero_less_power_int [of "2::real" "- 1074"] by linarith
  have "nearest (2 powi (- 1074)) \<le> nearest y"
    using assms by (intro nearest_mono) simp_all
  then have "2 powi (- 1074) \<le> nearest y"
    using nearest_two_powi [of "- 1074"] by simp
  then have "0 < nearest y"
    using zero_less_power_int [of "2::real" "- 1074"] by linarith
  then show ?thesis
    by (simp add: round64_pos [OF y])
qed

lemma double_not_zero:
  assumes "is_number x" "positive x"
  shows "\<not> is_nan (jmul (Fin 2) x) \<and> \<not> is_zero (jmul (Fin 2) x)"
proof -
  obtain r where r: "x = Fin r" "0 < r"
    using assms(2) by (cases x) (auto simp: positive_def)
  have "2 powi (- 1074) \<le> r" using number_positive(1) [OF assms] r(1) by simp
  then have "2 powi (- 1074) \<le> 2 * r" using r(2) by linarith
  then have "\<not> is_zero (round64 (2 * r))" by (rule round64_not_zero)
  then show ?thesis using r by (simp add: jmul_def)
qed

lemma positive_not_zero: "positive x \<Longrightarrow> \<not> is_nan x \<and> \<not> is_zero x \<and> is_finite x"
  by (cases x) (auto simp: positive_def)

lemma jmul_zero_left: "is_zero x \<Longrightarrow> is_finite y \<Longrightarrow> is_zero (jmul x y)"
  by (cases x; cases y) (auto simp: jmul_def signed_zero_def)

lemma jmul_zero_right: "is_finite x \<Longrightarrow> is_zero y \<Longrightarrow> is_zero (jmul x y)"
  by (cases x; cases y) (auto simp: jmul_def signed_zero_def)

lemma jdiv_zero_left: "is_zero x \<Longrightarrow> \<not> is_nan y \<Longrightarrow> \<not> is_zero y \<Longrightarrow> is_zero (jdiv x y)"
  by (cases x; cases y) (auto simp: jdiv_def signed_zero_def)

lemma jadd_zero: "is_zero x \<Longrightarrow> is_zero y \<Longrightarrow> is_zero (jadd x y)"
  by (cases x; cases y) (auto simp: jadd_def)

lemma is_zero_finite: "is_zero x \<Longrightarrow> is_finite x"
  by (cases x) auto

lemma jpow_zero: "is_zero x \<Longrightarrow> inside a b e \<Longrightarrow> is_zero (jpow x e)"
  using jpow_zero_base [of x "to_real e"] inside_Fin [of a b e] inside_pos [of a b e] by simp

lemma small_factor_finite:
  assumes "is_number x" "positive x" "inside a 0 c"
  shows "is_finite (jmul c x)"
proof -
  obtain r where r: "x = Fin r" "0 < r"
    using assms(2) by (cases x) (auto simp: positive_def)
  obtain s where s: "c = Fin s" "0 < s" "s \<le> 1"
    using inside_Fin [OF assms(3)] inside_pos [OF assms(3)] assms(3) by (auto simp: inside_def)
  have "s * r \<le> 1 * r" using s(3) r(2) by (intro mult_right_mono) simp_all
  then have "is_finite (round64 (s * r))"
    using round64_finite_le [OF assms(1,2), of "s * r"] r s(2) by simp
  then show ?thesis using r s by (simp add: jmul_def)
qed

lemma jpow_finite:
  assumes "is_number x" "positive x" "inside a 0 e"
  shows "is_finite (jpow x e)"
proof -
  obtain r where r: "x = Fin r" "0 < r"
    using assms(2) by (cases x) (auto simp: positive_def)
  note pe = inside_pos [OF assms(3)]
  have e1: "to_real e \<le> 1" using assms(3) by (simp add: inside_def)
  have eq: "jpow x e = round64 (r powr to_real e)"
    using r inside_Fin [OF assms(3)] pe by (metis jpow_pos)
  have b: "r powr to_real e \<le> max 1 r"
    using powr_between [OF r(2) pe e1] by simp
  show ?thesis
  proof (cases "1 \<le> r")
    case True
    then have "r powr to_real e \<le> to_real x" using b r(1) by simp
    then show ?thesis
      unfolding eq using round64_finite_le [OF assms(1,2), of "r powr to_real e"] by simp
  next
    case False
    then have "r powr to_real e \<le> 2 powi 0" using b by simp
    moreover have "0 < r powr to_real e" using r(2) by simp
    ultimately show ?thesis
      unfolding eq using round64_upper [of "r powr to_real e" 0] by auto
  qed
qed

lemma n_rpm_zero:
  assumes "valid i" "numbers i" "is_zero (n_rpm i)"
  shows "is_zero (Re_rot (calculateHeatTransfer i))"
proof -
  have f: "is_finite (rho i)" "is_finite (d_outer i)" "is_finite (d_hyd i)"
    using assms(1) by (simp_all add: valid_def positive_def)
  have m: "is_number (mu i)" "positive (mu i)"
    using assms(1,2) by (simp_all add: valid_def numbers_def)
  have k: "is_finite (jmul (num 2) Math_PI)" "\<not> is_nan (num 60)" "\<not> is_zero (num 60)"
    using inside_finite [OF inside_two_pi] inside_positive [OF inside_60]
    by (simp_all add: positive_not_zero)
  have 1: "is_zero (jmul (jmul (num 2) Math_PI) (n_rpm i))"
    using k(1) assms(3) by (rule jmul_zero_right)
  have 2: "is_zero (jdiv (jmul (jmul (num 2) Math_PI) (n_rpm i)) (num 60))"
    using 1 k(2,3) by (rule jdiv_zero_left)
  have 3: "is_zero (jmul (rho i) (jdiv (jmul (jmul (num 2) Math_PI) (n_rpm i)) (num 60)))"
    using f(1) 2 by (rule jmul_zero_right)
  have 4: "is_zero (jmul (jmul (rho i) (jdiv (jmul (jmul (num 2) Math_PI) (n_rpm i)) (num 60)))
      (d_outer i))"
    using 3 f(2) by (rule jmul_zero_left)
  have 5: "is_zero (jmul (jmul (jmul (rho i)
      (jdiv (jmul (jmul (num 2) Math_PI) (n_rpm i)) (num 60))) (d_outer i)) (d_hyd i))"
    using 4 f(3) by (rule jmul_zero_left)
  show ?thesis
    unfolding Re_rot_unfold
    using jdiv_zero_left [OF 5] double_not_zero [OF m] by simp
qed

lemma u_axial_zero:
  assumes "valid i" "is_zero (u_axial i)" "is_finite (jmul (num 2) (rho i))"
  shows "is_zero (Re_ax (calculateHeatTransfer i))"
proof -
  have f: "is_finite (delta_gap i)" "positive (mu i)"
    using assms(1) by (simp_all add: valid_def positive_def)
  have 1: "is_zero (jmul (jmul (num 2) (rho i)) (u_axial i))"
    using assms(3,2) by (rule jmul_zero_right)
  have 2: "is_zero (jmul (jmul (jmul (num 2) (rho i)) (u_axial i)) (delta_gap i))"
    using 1 f(1) by (rule jmul_zero_left)
  show ?thesis
    unfolding Re_ax_unfold
    using jdiv_zero_left [OF 2] positive_not_zero [OF f(2)] by simp
qed

lemma Re_ax_zero:
  assumes "valid i" "numbers i" "is_zero (Re_ax (calculateHeatTransfer i))"
  shows "is_zero (Nu_s (calculateHeatTransfer i)) \<and> is_zero (H_s (calculateHeatTransfer i))"
proof -
  have b: "is_number (B i)" "positive (B i)" and p: "is_number (Pr i)" "positive (Pr i)"
    and d: "is_number (delta_gap i)" "positive (delta_gap i)" and l: "is_finite (lambda_gas i)"
    using assms(1,2) by (simp_all add: valid_def numbers_def positive_def)
  have 1: "is_finite (jmul (num 0.023) (B i))"
    using small_factor_finite [OF b inside_mono [OF inside_0_023, of "- 6" 0]] by simp
  have 2: "is_zero (jpow (Re_ax (calculateHeatTransfer i)) (num 0.8))"
    using assms(3) inside_0_8 by (rule jpow_zero)
  have 3: "is_zero (jmul (jmul (num 0.023) (B i)) (jpow (Re_ax (calculateHeatTransfer i)) (num 0.8)))"
    using 1 2 by (rule jmul_zero_right)
  have 4: "is_finite (jpow (Pr i) (num 0.4))"
    using p inside_0_4 by (rule jpow_finite)
  have n: "is_zero (Nu_s (calculateHeatTransfer i))"
    unfolding Nu_s_unfold using 3 4 by (rule jmul_zero_left)
  have 5: "is_zero (jmul (Nu_s (calculateHeatTransfer i)) (lambda_gas i))"
    using n l by (rule jmul_zero_left)
  have "is_zero (H_s (calculateHeatTransfer i))"
    unfolding H_s_unfold
    using jdiv_zero_left [OF 5] double_not_zero [OF d] by simp
  with n show ?thesis by simp
qed

lemma Re_rot_Re_ax_zero:
  assumes "valid i" "is_zero (Re_rot (calculateHeatTransfer i))"
    "is_zero (Re_ax (calculateHeatTransfer i))"
  shows "is_zero (Nu_r (calculateHeatTransfer i)) \<and> is_zero (H_r (calculateHeatTransfer i))"
proof -
  have p: "is_finite (Pr i)" and l: "is_finite (lambda_gas i)" and h: "positive (d_hyd i)"
    using assms(1) by (simp_all add: valid_def positive_def)
  have 1: "is_zero (jpow (Re_rot (calculateHeatTransfer i)) (num 2))"
    using assms(2) inside_2 by (rule jpow_zero)
  have 2: "is_zero (jmul (num 0.5) (jpow (Re_rot (calculateHeatTransfer i)) (num 2)))"
    using inside_finite [OF inside_half] 1 by (rule jmul_zero_right)
  have 3: "is_zero (jpow (Re_ax (calculateHeatTransfer i)) (num 2))"
    using assms(3) inside_2 by (rule jpow_zero)
  have 4: "is_zero (jadd (jmul (num 0.5) (jpow (Re_rot (calculateHeatTransfer i)) (num 2)))
      (jpow (Re_ax (calculateHeatTransfer i)) (num 2)))"
    using 2 3 by (rule jadd_zero)
  have 5: "is_zero (jmul (jadd (jmul (num 0.5) (jpow (Re_rot (calculateHeatTransfer i)) (num 2)))
      (jpow (Re_ax (calculateHeatTransfer i)) (num 2))) (Pr i))"
    using 4 p by (rule jmul_zero_left)
  have 6: "is_zero (jpow (jmul (jadd (jmul (num 0.5)
      (jpow (Re_rot (calculateHeatTransfer i)) (num 2)))
      (jpow (Re_ax (calculateHeatTransfer i)) (num 2))) (Pr i)) (jdiv (num 1.0) (num 3.0)))"
    using 5 inside_third by (rule jpow_zero)
  have n: "is_zero (Nu_r (calculateHeatTransfer i))"
    unfolding Nu_r_unfold using inside_finite [OF inside_0_135] 6 by (rule jmul_zero_right)
  have 7: "is_zero (jmul (Nu_r (calculateHeatTransfer i)) (lambda_gas i))"
    using n l by (rule jmul_zero_left)
  have "is_zero (H_r (calculateHeatTransfer i))"
    unfolding H_r_unfold
    using jdiv_zero_left [OF 7] positive_not_zero [OF h] by simp
  with n show ?thesis by simp
qed

lemma zero_pow: "jpow (Fin 0) (num 0.8) = Fin 0"
  using inside_Fin [OF inside_0_8] inside_pos [OF inside_0_8]
  by (cases "num 0.8") (auto simp: jpow_def)

text \<open>
  C6, as stated, fails: the inputs \<open>rho = 2^1023\<close>, \<open>u_axial = 0\<close>, all others 1, satisfy
  the domain constraints and are values of the type \<open>number\<close>, but \<open>2 * rho\<close> overflows
  to \<open>+Infinity\<close>, \<open>Infinity * 0\<close> is \<open>NaN\<close>, and the returned \<open>Re_ax\<close> is \<open>NaN\<close>, not zero.
\<close>

theorem zero_speed_boundary_counterexample:
  "valid \<lparr>d_outer = Fin 1, n_rpm = Fin 1, rho = Fin (2 ^ 1023), mu = Fin 1, lambda_gas = Fin 1,
          Pr = Fin 1, u_axial = Fin 0, delta_gap = Fin 1, d_hyd = Fin 1, B = Fin 1\<rparr> \<and>
   numbers \<lparr>d_outer = Fin 1, n_rpm = Fin 1, rho = Fin (2 ^ 1023), mu = Fin 1, lambda_gas = Fin 1,
          Pr = Fin 1, u_axial = Fin 0, delta_gap = Fin 1, d_hyd = Fin 1, B = Fin 1\<rparr> \<and>
   Re_ax (calculateHeatTransfer
         \<lparr>d_outer = Fin 1, n_rpm = Fin 1, rho = Fin (2 ^ 1023), mu = Fin 1, lambda_gas = Fin 1,
          Pr = Fin 1, u_axial = Fin 0, delta_gap = Fin 1, d_hyd = Fin 1, B = Fin 1\<rparr>) = NaN"
proof -
  define a :: real where "a = 2 ^ 1023"
  have a: "a = 2 powi 1023" "0 < a" "2 * a = 2 ^ 1024"
    by (simp_all add: a_def)
  have n: "round64 a = Fin a"
    unfolding a(1) by (rule round64_two_powi) simp_all
  have "round64 (2 * a) = PInf"
    by (rule round64_overflow) (simp add: a(3))
  then have "jmul (Fin 2) (Fin a) = PInf"
    using a(2) by (simp add: jmul_def)
  then have "jdiv (jmul (jmul (jmul (Fin 2) (Fin a)) (Fin 0)) (Fin 1)) (Fin 1) = NaN"
    by (simp add: jmul_def jdiv_def)
  then show ?thesis
    unfolding Re_ax_unfold a_def [symmetric] using n a(2)
    by (simp add: valid_def numbers_def positive_def nonnegative_def is_number_def)
qed

text \<open>
  C6, amended: on inputs that satisfy the domain constraints and are values of the type
  \<open>number\<close>, a zero \<open>n_rpm\<close> gives a zero \<open>Re_rot\<close>; a zero \<open>u_axial\<close> gives a zero \<open>Re_ax\<close>
  provided \<open>2 * rho\<close> does not overflow; a zero \<open>Re_ax\<close> gives a zero \<open>Nu_s\<close> and a zero
  \<open>H_s\<close>; both Reynolds numbers zero give a zero \<open>Nu_r\<close> and a zero \<open>H_r\<close>; and
  \<open>Math.pow(0, 0.8)\<close> is 0.
\<close>

theorem zero_speed_boundary:
  assumes "valid i" "numbers i"
  shows "(is_zero (n_rpm i) \<longrightarrow> is_zero (Re_rot (calculateHeatTransfer i))) \<and>
         (is_zero (u_axial i) \<and> is_finite (jmul (num 2) (rho i)) \<longrightarrow>
            is_zero (Re_ax (calculateHeatTransfer i))) \<and>
         (is_zero (Re_ax (calculateHeatTransfer i)) \<longrightarrow>
            is_zero (Nu_s (calculateHeatTransfer i)) \<and> is_zero (H_s (calculateHeatTransfer i))) \<and>
         (is_zero (Re_rot (calculateHeatTransfer i)) \<and> is_zero (Re_ax (calculateHeatTransfer i)) \<longrightarrow>
            is_zero (Nu_r (calculateHeatTransfer i)) \<and> is_zero (H_r (calculateHeatTransfer i))) \<and>
         jpow (Fin 0) (num 0.8) = Fin 0"
  using n_rpm_zero [OF assms] u_axial_zero [OF assms(1)] Re_ax_zero [OF assms]
    Re_rot_Re_ax_zero [OF assms(1)] zero_pow
  by blast

text \<open>
  C4, as stated, fails: the inputs \<open>rho = u_axial = 2^600\<close>, all others 1, satisfy the
  domain constraints and are values of the type \<open>number\<close>, but the product
  \<open>2 * rho * u_axial\<close> overflows and the returned \<open>Re_ax\<close> is \<open>+Infinity\<close>.
\<close>

theorem calculateHeatTransfer_finite_counterexample:
  "valid \<lparr>d_outer = Fin 1, n_rpm = Fin 1, rho = Fin (2 ^ 600), mu = Fin 1, lambda_gas = Fin 1,
          Pr = Fin 1, u_axial = Fin (2 ^ 600), delta_gap = Fin 1, d_hyd = Fin 1, B = Fin 1\<rparr> \<and>
   numbers \<lparr>d_outer = Fin 1, n_rpm = Fin 1, rho = Fin (2 ^ 600), mu = Fin 1, lambda_gas = Fin 1,
          Pr = Fin 1, u_axial = Fin (2 ^ 600), delta_gap = Fin 1, d_hyd = Fin 1, B = Fin 1\<rparr> \<and>
   Re_ax (calculateHeatTransfer
         \<lparr>d_outer = Fin 1, n_rpm = Fin 1, rho = Fin (2 ^ 600), mu = Fin 1, lambda_gas = Fin 1,
          Pr = Fin 1, u_axial = Fin (2 ^ 600), delta_gap = Fin 1, d_hyd = Fin 1, B = Fin 1\<rparr>) = PInf"
proof -
  define a :: real where "a = 2 ^ 600"
  have a: "a = 2 powi 600" "0 < a" "2 * a = 2 powi 601" "2 ^ 1024 \<le> 2 * a * a"
    by (simp_all add: a_def)
  have n: "round64 a = Fin a"
    unfolding a(1) by (rule round64_two_powi) simp_all
  have "round64 (2 * a) = Fin (2 * a)"
    unfolding a(3) by (rule round64_two_powi) simp_all
  then have 1: "jmul (Fin 2) (Fin a) = Fin (2 * a)"
    using a(2) by (simp add: jmul_def)
  have "round64 (2 * a * a) = PInf"
    using a(4) by (rule round64_overflow)
  then have 2: "jmul (Fin (2 * a)) (Fin a) = PInf"
    using a(2) by (simp add: jmul_def)
  have "jdiv (jmul (jmul (jmul (Fin 2) (Fin a)) (Fin a)) (Fin 1)) (Fin 1) = PInf"
    unfolding 1 2 by (simp add: jmul_def jdiv_def signed_inf_def)
  then show ?thesis
    unfolding Re_ax_unfold a_def [symmetric] using n a(2)
    by (simp add: valid_def numbers_def positive_def nonnegative_def is_number_def)
qed

lemma is_number_num [simp]: "is_number (num c)"
  by (simp add: num_def round64_is_number)

lemma is_number_zero [simp]: "is_number (Fin 0)"
  by (simp add: is_number_def)

lemma numbers_INITIAL_INPUTS: "numbers INITIAL_INPUTS"
  by (simp add: numbers_def INITIAL_INPUTS_def del: num_2 num_1 num_half)

theorem zero_speed_boundary_witness:
  "valid (INITIAL_INPUTS\<lparr>n_rpm := Fin 0, u_axial := Fin 0\<rparr>) \<and>
   numbers (INITIAL_INPUTS\<lparr>n_rpm := Fin 0, u_axial := Fin 0\<rparr>) \<and>
   is_zero (n_rpm (INITIAL_INPUTS\<lparr>n_rpm := Fin 0, u_axial := Fin 0\<rparr>)) \<and>
   is_zero (u_axial (INITIAL_INPUTS\<lparr>n_rpm := Fin 0, u_axial := Fin 0\<rparr>)) \<and>
   is_finite (jmul (num 2) (rho (INITIAL_INPUTS\<lparr>n_rpm := Fin 0, u_axial := Fin 0\<rparr>))) \<and>
   is_zero (Re_rot (calculateHeatTransfer (INITIAL_INPUTS\<lparr>n_rpm := Fin 0, u_axial := Fin 0\<rparr>))) \<and>
   is_zero (Re_ax (calculateHeatTransfer (INITIAL_INPUTS\<lparr>n_rpm := Fin 0, u_axial := Fin 0\<rparr>))) \<and>
   is_zero (Nu_s (calculateHeatTransfer (INITIAL_INPUTS\<lparr>n_rpm := Fin 0, u_axial := Fin 0\<rparr>))) \<and>
   is_zero (H_s (calculateHeatTransfer (INITIAL_INPUTS\<lparr>n_rpm := Fin 0, u_axial := Fin 0\<rparr>))) \<and>
   is_zero (Nu_r (calculateHeatTransfer (INITIAL_INPUTS\<lparr>n_rpm := Fin 0, u_axial := Fin 0\<rparr>))) \<and>
   is_zero (H_r (calculateHeatTransfer (INITIAL_INPUTS\<lparr>n_rpm := Fin 0, u_axial := Fin 0\<rparr>)))"
proof -
  let ?i = "INITIAL_INPUTS\<lparr>n_rpm := Fin 0, u_axial := Fin 0\<rparr>"
  have v: "valid ?i"
    using valid_INITIAL_INPUTS by (simp add: valid_def nonnegative_def)
  have n: "numbers ?i"
    using numbers_INITIAL_INPUTS by (simp add: numbers_def)
  have f: "is_finite (jmul (num 2) (rho ?i))"
    using inside_finite [OF inside_jmul [OF inside_2 INITIAL_INPUTS_inside(3)]] by simp
  show ?thesis
    using zero_speed_boundary [OF v n] v n f by simp
qed

section \<open>The reference case\<close>

text \<open>Evaluation of a product or a quotient of two given values.\<close>

lemma jmul_eval:
  assumes "2 powi e \<le> x * y" "x * y < 2 powi (e + 1)" "- 1022 \<le> e" "e \<le> 1023"
    and "round_half_even (x * y / 2 powi (e - 52)) = m"
    and "m < 2 ^ 53" "z = of_int m * 2 powi (e - 52)"
  shows "jmul (Fin x) (Fin y) = Fin z"
proof -
  have "0 < x * y" using assms(1) zero_less_power_int [of "2::real" e] by linarith
  then have "x \<noteq> 0" "y \<noteq> 0" by auto
  then show ?thesis
    using round64_eval [OF assms] by (simp add: jmul_Fin)
qed

lemma jdiv_eval:
  assumes "2 powi e \<le> x / y" "x / y < 2 powi (e + 1)" "- 1022 \<le> e" "e \<le> 1023"
    and "round_half_even (x / y / 2 powi (e - 52)) = m"
    and "m < 2 ^ 53" "z = of_int m * 2 powi (e - 52)"
  shows "jdiv (Fin x) (Fin y) = Fin z"
proof -
  have "0 < x / y" using assms(1) zero_less_power_int [of "2::real" e] by linarith
  then have "x \<noteq> 0" "y \<noteq> 0" by auto
  then show ?thesis
    using round64_eval [OF assms] by (simp add: jdiv_Fin)
qed

text \<open>The literals of the reference inputs and the intermediate results, one rounding each.\<close>

lemma num_d_outer: "num 0.150 = Fin (5404319552844595 / 36028797018963968)"
  unfolding num_def
  by (rule round64_eval [where e = "- 3" and m = 5404319552844595])
    (simp_all add: round_half_even_def power_int_minus)

lemma num_n_rpm: "num 10300 = Fin (10300)"
  unfolding num_def
  by (rule round64_eval [where e = 13 and m = 5662484883046400])
    (simp_all add: round_half_even_def power_int_minus)

lemma num_rho: "num 1.225 = Fin (2758454771764429 / 2251799813685248)"
  unfolding num_def
  by (rule round64_eval [where e = 0 and m = 5516909543528858])
    (simp_all add: round_half_even_def power_int_minus)

lemma num_mu: "num (1.81 / 10 ^ 5) = Fin (2671088541873143 / 147573952589676412928)"
  unfolding num_def
  by (rule round64_eval [where e = "- 16" and m = 5342177083746286])
    (simp_all add: round_half_even_def power_int_minus)

lemma num_u_axial: "num 5.0 = Fin (5)"
  unfolding num_def
  by (rule round64_eval [where e = 2 and m = 5629499534213120])
    (simp_all add: round_half_even_def power_int_minus)

lemma num_delta_gap: "num (5.0 / 10 ^ 6) = Fin (5902958103587057 / 1180591620717411303424)"
  unfolding num_def
  by (rule round64_eval [where e = "- 18" and m = 5902958103587057])
    (simp_all add: round_half_even_def power_int_minus)

lemma num_d_hyd: "num (1.0 / 10 ^ 5) = Fin (5902958103587057 / 590295810358705651712)"
  unfolding num_def
  by (rule round64_eval [where e = "- 17" and m = 5902958103587057])
    (simp_all add: round_half_even_def power_int_minus)

lemma num_60: "num 60.0 = Fin (60)"
  unfolding num_def
  by (rule round64_eval [where e = 5 and m = 8444249301319680])
    (simp_all add: round_half_even_def power_int_minus)

lemma ref_two_pi: "jmul (Fin (2)) (Fin (884279719003555 / 281474976710656)) = Fin (884279719003555 / 140737488355328)"
  by (rule jmul_eval [where e = 2 and m = 7074237752028440])
    (simp_all add: round_half_even_def power_int_minus)

lemma ref_two_pi_n: "jmul (Fin (884279719003555 / 140737488355328)) (Fin (10300)) = Fin (8894610454820915 / 137438953472)"
  by (rule jmul_eval [where e = 15 and m = 8894610454820915])
    (simp_all add: round_half_even_def power_int_minus)

lemma ref_omega: "jdiv (Fin (8894610454820915 / 137438953472)) (Fin (60)) = Fin (4743792242571155 / 4398046511104)"
  by (rule jdiv_eval [where e = 10 and m = 4743792242571155])
    (simp_all add: round_half_even_def power_int_minus)

lemma ref_rho_omega: "jmul (Fin (2758454771764429 / 2251799813685248)) (Fin (4743792242571155 / 4398046511104)) = Fin (5811145497149665 / 4398046511104)"
  by (rule jmul_eval [where e = 10 and m = 5811145497149665])
    (simp_all add: round_half_even_def power_int_minus)

lemma ref_rho_omega_d: "jmul (Fin (5811145497149665 / 4398046511104)) (Fin (5404319552844595 / 36028797018963968)) = Fin (3486687298289799 / 17592186044416)"
  by (rule jmul_eval [where e = 7 and m = 6973374596579598])
    (simp_all add: round_half_even_def power_int_minus)

lemma ref_rot_numerator: "jmul (Fin (3486687298289799 / 17592186044416)) (Fin (5902958103587057 / 590295810358705651712)) = Fin (2285035387807203 / 1152921504606846976)"
  by (rule jmul_eval [where e = "- 9" and m = 4570070775614406])
    (simp_all add: round_half_even_def power_int_minus)

lemma ref_two_mu: "jmul (Fin (2)) (Fin (2671088541873143 / 147573952589676412928)) = Fin (2671088541873143 / 73786976294838206464)"
  by (rule jmul_eval [where e = "- 15" and m = 5342177083746286])
    (simp_all add: round_half_even_def power_int_minus)

lemma ref_Re_rot: "jdiv (Fin (2285035387807203 / 1152921504606846976)) (Fin (2671088541873143 / 73786976294838206464)) = Fin (7705386294563093 / 140737488355328)"
  by (rule jdiv_eval [where e = 5 and m = 7705386294563093])
    (simp_all add: round_half_even_def power_int_minus)

lemma ref_two_rho: "jmul (Fin (2)) (Fin (2758454771764429 / 2251799813685248)) = Fin (2758454771764429 / 1125899906842624)"
  by (rule jmul_eval [where e = 1 and m = 5516909543528858])
    (simp_all add: round_half_even_def power_int_minus)

lemma ref_two_rho_u: "jmul (Fin (2758454771764429 / 1125899906842624)) (Fin (5)) = Fin (49 / 4)"
  by (rule jmul_eval [where e = 3 and m = 6896136929411072])
    (simp_all add: round_half_even_def power_int_minus)

lemma ref_ax_numerator: "jmul (Fin (49 / 4)) (Fin (5902958103587057 / 1180591620717411303424)) = Fin (4519452298058841 / 73786976294838206464)"
  by (rule jmul_eval [where e = "- 14" and m = 4519452298058841])
    (simp_all add: round_half_even_def power_int_minus)

lemma ref_Re_ax: "jdiv (Fin (4519452298058841 / 73786976294838206464)) (Fin (2671088541873143 / 147573952589676412928)) = Fin (7620040805979087 / 2251799813685248)"
  by (rule jdiv_eval [where e = 1 and m = 7620040805979087])
    (simp_all add: round_half_even_def power_int_minus)

lemma Re_rot_INITIAL_INPUTS:
  "Re_rot (calculateHeatTransfer INITIAL_INPUTS) = Fin (7705386294563093 / 140737488355328)"
proof -
  have f: "rho INITIAL_INPUTS = Fin (2758454771764429 / 2251799813685248)" "n_rpm INITIAL_INPUTS = Fin (10300)"
    "d_outer INITIAL_INPUTS = Fin (5404319552844595 / 36028797018963968)" "d_hyd INITIAL_INPUTS = Fin (5902958103587057 / 590295810358705651712)"
    "mu INITIAL_INPUTS = Fin (2671088541873143 / 147573952589676412928)" "num 60 = Fin 60"
    using num_rho num_n_rpm num_d_outer num_d_hyd num_mu num_60
    by (simp_all add: INITIAL_INPUTS_def)
  show ?thesis
    unfolding Re_rot_unfold f num_2 Math_PI_def ref_two_pi ref_two_pi_n ref_omega ref_rho_omega
      ref_rho_omega_d ref_rot_numerator ref_two_mu ref_Re_rot
    by (rule refl)
qed

lemma Re_ax_INITIAL_INPUTS:
  "Re_ax (calculateHeatTransfer INITIAL_INPUTS) = Fin (7620040805979087 / 2251799813685248)"
proof -
  have f: "rho INITIAL_INPUTS = Fin (2758454771764429 / 2251799813685248)" "u_axial INITIAL_INPUTS = Fin (5)"
    "delta_gap INITIAL_INPUTS = Fin (5902958103587057 / 1180591620717411303424)" "mu INITIAL_INPUTS = Fin (2671088541873143 / 147573952589676412928)"
    using num_rho num_u_axial num_delta_gap num_mu
    by (simp_all add: INITIAL_INPUTS_def)
  show ?thesis
    unfolding Re_ax_unfold f num_2 ref_two_rho ref_two_rho_u ref_ax_numerator ref_Re_ax
    by (rule refl)
qed

text \<open>The ranges of the six outputs on the reference inputs.\<close>

lemma INITIAL_INPUTS_results_inside:
  "inside 3 10 (Re_rot (calculateHeatTransfer INITIAL_INPUTS))"
  "inside 0 4 (Re_ax (calculateHeatTransfer INITIAL_INPUTS))"
  "inside (- 6) 0 (Nu_s (calculateHeatTransfer INITIAL_INPUTS))"
  "inside 4 12 (H_s (calculateHeatTransfer INITIAL_INPUTS))"
  "inside (- 3) 18 (Nu_r (calculateHeatTransfer INITIAL_INPUTS))"
  "inside 7 30 (H_r (calculateHeatTransfer INITIAL_INPUTS))"
proof -
  let ?i = INITIAL_INPUTS
  note I = INITIAL_INPUTS_inside
  have 1: "inside 15 17 (jmul (jmul (num 2) Math_PI) (n_rpm ?i))"
    using inside_jmul [OF inside_two_pi I(2)] by simp
  have 2: "inside 9 12 (jdiv (jmul (jmul (num 2) Math_PI) (n_rpm ?i)) (num 60))"
    using inside_jdiv [OF 1 inside_60] by simp
  have 3: "inside 9 13 (jmul (rho ?i) (jdiv (jmul (jmul (num 2) Math_PI) (n_rpm ?i)) (num 60)))"
    using inside_jmul [OF I(3) 2] by simp
  have 4: "inside 6 11 (jmul (jmul (rho ?i)
      (jdiv (jmul (jmul (num 2) Math_PI) (n_rpm ?i)) (num 60))) (d_outer ?i))"
    using inside_jmul [OF 3 I(1)] by simp
  have 5: "inside (- 11) (- 5) (jmul (jmul (jmul (rho ?i)
      (jdiv (jmul (jmul (num 2) Math_PI) (n_rpm ?i)) (num 60))) (d_outer ?i)) (d_hyd ?i))"
    using inside_jmul [OF 4 I(9)] by simp
  have dm: "inside (- 15) (- 14) (jmul (num 2) (mu ?i))"
    using inside_jmul [OF inside_2 I(4)] by simp
  show rot: "inside 3 10 (Re_rot (calculateHeatTransfer ?i))"
    unfolding Re_rot_unfold using inside_jdiv [OF 5 dm] by simp
  have 6: "inside 1 2 (jmul (num 2) (rho ?i))"
    using inside_jmul [OF inside_2 I(3)] by simp
  have 7: "inside 3 5 (jmul (jmul (num 2) (rho ?i)) (u_axial ?i))"
    using inside_jmul [OF 6 I(7)] by simp
  have 8: "inside (- 15) (- 12) (jmul (jmul (jmul (num 2) (rho ?i)) (u_axial ?i)) (delta_gap ?i))"
    using inside_jmul [OF 7 I(8)] by simp
  show ax: "inside 0 4 (Re_ax (calculateHeatTransfer ?i))"
    unfolding Re_ax_unfold using inside_jdiv [OF 8 I(4)] by simp
  have 9: "inside (- 5) (- 4) (jmul (num 0.023) (B ?i))"
    using inside_jmul [OF inside_0_023 I(10)] by simp
  have 10: "inside 0 4 (jpow (Re_ax (calculateHeatTransfer ?i)) (num 0.8))"
    using inside_jpow [OF ax inside_0_8] by simp
  have 11: "inside (- 5) 0 (jmul (jmul (num 0.023) (B ?i))
      (jpow (Re_ax (calculateHeatTransfer ?i)) (num 0.8)))"
    using inside_jmul [OF 9 10] by simp
  have 12: "inside (- 1) 0 (jpow (Pr ?i) (num 0.4))"
    using inside_jpow [OF I(6) inside_0_4] by simp
  show nus: "inside (- 6) 0 (Nu_s (calculateHeatTransfer ?i))"
    unfolding Nu_s_unfold using inside_jmul [OF 11 12] by simp
  have 13: "inside (- 12) (- 5) (jmul (Nu_s (calculateHeatTransfer ?i)) (lambda_gas ?i))"
    using inside_jmul [OF nus I(5)] by simp
  have dd: "inside (- 17) (- 16) (jmul (num 2) (delta_gap ?i))"
    using inside_jmul [OF inside_2 I(8)] by simp
  show "inside 4 12 (H_s (calculateHeatTransfer ?i))"
    unfolding H_s_unfold using inside_jdiv [OF 13 dd] by simp
  have 14: "inside 6 20 (jpow (Re_rot (calculateHeatTransfer ?i)) (num 2))"
    using inside_jpow_two [OF rot] by simp
  have 15: "inside 5 19 (jmul (num 0.5) (jpow (Re_rot (calculateHeatTransfer ?i)) (num 2)))"
    using inside_jmul [OF inside_half 14] by simp
  have 16: "inside 0 19 (jpow (Re_ax (calculateHeatTransfer ?i)) (num 2))"
    using inside_mono [OF inside_jpow_two [OF ax], of 0 19] by simp
  have 17: "inside 5 20 (jadd (jmul (num 0.5) (jpow (Re_rot (calculateHeatTransfer ?i)) (num 2)))
      (jpow (Re_ax (calculateHeatTransfer ?i)) (num 2)))"
    using inside_jadd [OF 15 16] by simp
  have 18: "inside 4 20 (jmul (jadd (jmul (num 0.5)
      (jpow (Re_rot (calculateHeatTransfer ?i)) (num 2)))
      (jpow (Re_ax (calculateHeatTransfer ?i)) (num 2))) (Pr ?i))"
    using inside_jmul [OF 17 I(6)] by simp
  have 19: "inside 0 20 (jpow (jmul (jadd (jmul (num 0.5)
      (jpow (Re_rot (calculateHeatTransfer ?i)) (num 2)))
      (jpow (Re_ax (calculateHeatTransfer ?i)) (num 2))) (Pr ?i)) (jdiv (num 1.0) (num 3.0)))"
    using inside_jpow [OF 18 inside_third] by simp
  show nur: "inside (- 3) 18 (Nu_r (calculateHeatTransfer ?i))"
    unfolding Nu_r_unfold using inside_jmul [OF inside_0_135 19] by simp
  have 20: "inside (- 9) 13 (jmul (Nu_r (calculateHeatTransfer ?i)) (lambda_gas ?i))"
    using inside_jmul [OF nur I(5)] by simp
  show "inside 7 30 (H_r (calculateHeatTransfer ?i))"
    unfolding H_r_unfold using inside_jdiv [OF 20 I(9)] by simp
qed

text \<open>
  C2, as stated, fails: on the reference inputs the specification expects \<open>Re_rot\<close>
  near 29,090,472 and \<open>Re_ax\<close> near 676.8, but the function returns a \<open>Re_rot\<close> below 55
  and a \<open>Re_ax\<close> below 4.
\<close>

theorem reference_case_counterexample:
  "jless (Re_rot (calculateHeatTransfer INITIAL_INPUTS)) (Fin 55) \<and>
   jless (Re_ax (calculateHeatTransfer INITIAL_INPUTS)) (Fin 4)"
  unfolding Re_rot_INITIAL_INPUTS Re_ax_INITIAL_INPUTS by simp

text \<open>
  C2, amended: on the reference inputs \<open>Re_rot\<close> is about 54.75 (between 54.7 and 54.8),
  \<open>Re_ax\<close> is about 3.384 (between 3.38 and 3.39), and \<open>H_r\<close> and \<open>H_s\<close> are finite and
  strictly positive.
\<close>

theorem reference_case:
  "jless (Fin 54.7) (Re_rot (calculateHeatTransfer INITIAL_INPUTS)) \<and>
   jless (Re_rot (calculateHeatTransfer INITIAL_INPUTS)) (Fin 54.8) \<and>
   jless (Fin 3.38) (Re_ax (calculateHeatTransfer INITIAL_INPUTS)) \<and>
   jless (Re_ax (calculateHeatTransfer INITIAL_INPUTS)) (Fin 3.39) \<and>
   positive (H_r (calculateHeatTransfer INITIAL_INPUTS)) \<and>
   positive (H_s (calculateHeatTransfer INITIAL_INPUTS))"
  unfolding Re_rot_INITIAL_INPUTS Re_ax_INITIAL_INPUTS
  using inside_positive [OF INITIAL_INPUTS_results_inside(6)]
    inside_positive [OF INITIAL_INPUTS_results_inside(4)]
  by simp

section \<open>Determinism and the frame\<close>

lemma calculateHeatTransfer_heap_Some:
  assumes "a < length h" "h ! a = InputsObj i"
  shows "calculateHeatTransfer_heap h a =
           Some (length h, h @ [ResultsObj (calculateHeatTransfer i)])"
  using assms by (simp add: calculateHeatTransfer_heap_def)

text \<open>
  C8: the result is a function of the input record alone. A call on an object with
  the fields \<open>i\<close> returns an object with the contents \<open>calculateHeatTransfer i\<close>; a second
  call on the same object, in the store the first call left, returns the same
  contents again; and so does a call on any object with the same fields in any other
  store. Equality of contents is equality of the six numbers, \<open>NaN\<close> equal to itself.
\<close>

theorem calculateHeatTransfer_deterministic:
  assumes "a < length h" "h ! a = InputsObj i" "a' < length h'" "h' ! a' = InputsObj i"
  shows "\<exists>r1 h1. calculateHeatTransfer_heap h a = Some (r1, h1) \<and>
           h1 ! r1 = ResultsObj (calculateHeatTransfer i) \<and>
           (\<exists>r2 h2. calculateHeatTransfer_heap h1 a = Some (r2, h2) \<and> h2 ! r2 = h1 ! r1) \<and>
           (\<exists>r' h1'. calculateHeatTransfer_heap h' a' = Some (r', h1') \<and> h1' ! r' = h1 ! r1)"
proof -
  let ?h1 = "h @ [ResultsObj (calculateHeatTransfer i)]"
  have 1: "calculateHeatTransfer_heap h a = Some (length h, ?h1)"
    using assms(1,2) by (rule calculateHeatTransfer_heap_Some)
  have "a < length ?h1" "?h1 ! a = InputsObj i"
    using assms(1,2) by (simp_all add: nth_append)
  then have 2: "calculateHeatTransfer_heap ?h1 a =
      Some (length ?h1, ?h1 @ [ResultsObj (calculateHeatTransfer i)])"
    by (rule calculateHeatTransfer_heap_Some)
  have 3: "calculateHeatTransfer_heap h' a' =
      Some (length h', h' @ [ResultsObj (calculateHeatTransfer i)])"
    using assms(3,4) by (rule calculateHeatTransfer_heap_Some)
  show ?thesis
    by (simp add: 1 2 3 nth_append)
qed

theorem calculateHeatTransfer_deterministic_witness:
  "\<exists>r1 h1. calculateHeatTransfer_heap [InputsObj INITIAL_INPUTS] 0 = Some (r1, h1) \<and>
     h1 ! r1 = ResultsObj (calculateHeatTransfer INITIAL_INPUTS) \<and>
     (\<exists>r2 h2. calculateHeatTransfer_heap h1 0 = Some (r2, h2) \<and> h2 ! r2 = h1 ! r1) \<and>
     (\<exists>r' h1'. calculateHeatTransfer_heap
                  [ResultsObj (calculateHeatTransfer INITIAL_INPUTS), InputsObj INITIAL_INPUTS] 1 =
                  Some (r', h1') \<and> h1' ! r' = h1 ! r1)"
  using calculateHeatTransfer_deterministic [of 0 "[InputsObj INITIAL_INPUTS]" INITIAL_INPUTS 1
      "[ResultsObj (calculateHeatTransfer INITIAL_INPUTS), InputsObj INITIAL_INPUTS]"]
  by simp

text \<open>
  C10: the call does not mutate its argument. After the call the object it was given
  has the same ten fields, every object that existed before is unchanged, and the
  returned \<open>SealResults\<close> is an object that did not exist before, at an address
  different from the argument's.
\<close>

theorem calculateHeatTransfer_frame:
  assumes "a < length h" "h ! a = InputsObj i"
  shows "\<exists>r h'. calculateHeatTransfer_heap h a = Some (r, h') \<and>
           h' ! a = InputsObj i \<and> (\<forall>b<length h. h' ! b = h ! b) \<and>
           length h \<le> r \<and> r < length h' \<and> r \<noteq> a \<and>
           h' ! r = ResultsObj (calculateHeatTransfer i)"
  unfolding calculateHeatTransfer_heap_Some [OF assms]
  using assms by (simp add: nth_append)

theorem calculateHeatTransfer_frame_witness:
  "\<exists>r h'. calculateHeatTransfer_heap [InputsObj INITIAL_INPUTS] 0 = Some (r, h') \<and>
     h' ! 0 = InputsObj INITIAL_INPUTS \<and> r = 1 \<and> length h' = 2 \<and>
     h' ! r = ResultsObj (calculateHeatTransfer INITIAL_INPUTS)"
  using calculateHeatTransfer_frame [of 0 "[InputsObj INITIAL_INPUTS]" INITIAL_INPUTS]
  by (simp add: calculateHeatTransfer_heap_def)

end
